theory Spec2Isabelle
  imports Complex_Main "HOL-Library.Word" "HOL-Library.Log_Nat"
begin

section \<open>Floating-point numbers of the source\<close>

text \<open>
  The program computes with the C++ types \<^verbatim>\<open>float\<close> (IEEE 754 binary32) and, in one
  expression, \<^verbatim>\<open>double\<close> (binary64). A finite floating-point number is modelled by the
  real number it denotes, and every arithmetic operation of the source is the exact
  operation followed by rounding to the nearest representable number, ties to the even
  significand: \<open>a + b\<close> on floats is \<open>f32 (a + b)\<close>.

  \<open>rnd p emin\<close> rounds to the format with a \<open>p\<close>-bit significand whose smallest normal
  exponent is \<open>emin\<close>; below \<open>2 powi emin\<close> the spacing stays that of the subnormal numbers.
  The exponent is not bounded above: infinities and NaN are not values of the model, and
  the two zeros are one. Every quantity considered below stays far inside the finite range.
\<close>

type_synonym float = real
type_synonym double = real

definition rne :: "real \<Rightarrow> int" where
  "rne x = (let f = \<lfloor>x\<rfloor>; r = x - of_int f in
     if r < 1/2 then f else if 1/2 < r then f + 1 else if even f then f else f + 1)"

definition expo :: "int \<Rightarrow> real \<Rightarrow> int" where
  "expo emin x = max (bitlen \<lfloor>\<bar>x\<bar> * 2 powi (- emin)\<rfloor> - 1 + emin) emin"

definition ulp :: "nat \<Rightarrow> int \<Rightarrow> real \<Rightarrow> real" where
  "ulp p emin x = 2 powi (expo emin x - int p + 1)"

definition rnd :: "nat \<Rightarrow> int \<Rightarrow> real \<Rightarrow> real" where
  "rnd p emin x = of_int (rne (x / ulp p emin x)) * ulp p emin x"

definition f32 :: "real \<Rightarrow> float" where
  "f32 x = rnd 24 (- 126) x"

definition f64 :: "real \<Rightarrow> double" where
  "f64 x = rnd 53 (- 1022) x"

text \<open>
  \<^verbatim>\<open>cosf\<close> and \<^verbatim>\<open>sinf\<close> come from the C library, which is not part of the
  repository; the functions that call them take the library as a parameter.
\<close>

record libm =
  cosf :: "float \<Rightarrow> float"
  sinf :: "float \<Rightarrow> float"

definition libm_rounded :: libm where
  "libm_rounded = \<lparr>cosf = (\<lambda>x. f32 (cos x)), sinf = (\<lambda>x. f32 (sin x))\<rparr>"

definition M_PI :: double where
  "M_PI = f64 (314159265358979323846 / 10 ^ 20)"


section \<open>Machine integers and the OpenGL context\<close>

type_synonym Uint8 = "8 word"
type_synonym Uint32 = "32 word"
type_synonym Sint32 = "32 word"
type_synonym GLuint = "32 word"

text \<open>
  The fixed-function pipeline keeps a current modelview matrix and a stack of saved ones.
  The current matrix is kept as the sequence of elementary transformations multiplied onto
  it, in call order; \<open>apply_xforms\<close> gives the map on points such a product denotes.
  Each textured sphere sent to the pipeline is recorded with the state it was drawn under.
  \<^verbatim>\<open>glPopMatrix\<close> on an empty stack is an OpenGL error that leaves the matrix alone;
  the depth limit of the stack (at least 32) is far above the three levels the program uses
  and is left out.
\<close>

datatype xform =
    Translate real real real
  | Rotate real real real real

type_synonym vec3 = "real \<times> real \<times> real"

record sphere =
  sphere_xform :: "xform list"
  sphere_texture :: GLuint
  sphere_color :: "real \<times> real \<times> real \<times> real"
  sphere_radius :: real
  sphere_slices :: int
  sphere_stacks :: int

record GL =
  modelview :: "xform list"
  matrix_stack :: "xform list list"
  bound_texture :: GLuint
  current_color :: "real \<times> real \<times> real \<times> real"
  drawn :: "sphere list"

definition glPushMatrix :: "GL \<Rightarrow> GL" where
  "glPushMatrix g = g\<lparr>matrix_stack := modelview g # matrix_stack g\<rparr>"

definition glPopMatrix :: "GL \<Rightarrow> GL" where
  "glPopMatrix g =
     (case matrix_stack g of
        [] \<Rightarrow> g
      | m # ms \<Rightarrow> g\<lparr>modelview := m, matrix_stack := ms\<rparr>)"

definition glTranslatef :: "float \<Rightarrow> float \<Rightarrow> float \<Rightarrow> GL \<Rightarrow> GL" where
  "glTranslatef x y z g = g\<lparr>modelview := modelview g @ [Translate x y z]\<rparr>"

definition glRotatef :: "float \<Rightarrow> float \<Rightarrow> float \<Rightarrow> float \<Rightarrow> GL \<Rightarrow> GL" where
  "glRotatef angle x y z g = g\<lparr>modelview := modelview g @ [Rotate angle x y z]\<rparr>"

definition glBindTexture :: "GLuint \<Rightarrow> GL \<Rightarrow> GL" where
  "glBindTexture t g = g\<lparr>bound_texture := t\<rparr>"

definition glColor4f :: "float \<Rightarrow> float \<Rightarrow> float \<Rightarrow> float \<Rightarrow> GL \<Rightarrow> GL" where
  "glColor4f r gr b a g = g\<lparr>current_color := (r, gr, b, a)\<rparr>"

text \<open>
  \<^verbatim>\<open>gluNewQuadric\<close>, \<^verbatim>\<open>gluQuadricTexture(quadric, GL_TRUE)\<close>, \<^verbatim>\<open>gluSphere\<close> and
  \<^verbatim>\<open>gluDeleteQuadric\<close> together draw one textured sphere.
\<close>

definition gluSphere :: "double \<Rightarrow> int \<Rightarrow> int \<Rightarrow> GL \<Rightarrow> GL" where
  "gluSphere r slices stacks g =
     g\<lparr>drawn := drawn g @
        [\<lparr>sphere_xform = modelview g, sphere_texture = bound_texture g,
          sphere_color = current_color g, sphere_radius = r,
          sphere_slices = slices, sphere_stacks = stacks\<rparr>]\<rparr>"

fun apply_xform :: "xform \<Rightarrow> vec3 \<Rightarrow> vec3" where
  "apply_xform (Translate x y z) (a, b, c) = (a + x, b + y, c + z)"
| "apply_xform (Rotate deg x y z) (a, b, c) =
     (let n = sqrt (x * x + y * y + z * z);
          ux = x / n; uy = y / n; uz = z / n;
          t = deg * pi / 180;
          d = ux * a + uy * b + uz * c
      in (cos t * a + sin t * (uy * c - uz * b) + (1 - cos t) * d * ux,
          cos t * b + sin t * (uz * a - ux * c) + (1 - cos t) * d * uy,
          cos t * c + sin t * (ux * b - uy * a) + (1 - cos t) * d * uz))"

definition apply_xforms :: "xform list \<Rightarrow> vec3 \<Rightarrow> vec3" where
  "apply_xforms ts v = foldr apply_xform ts v"


section \<open>The celestial bodies\<close>

subsection \<open>Moon\<close>

record Moon =
  moon_orbitAngle :: float
  moon_distance :: float
  moon_size :: float
  moon_textureID :: GLuint
  moon_atmosphereTextureID :: GLuint

definition Moon_new :: "float \<Rightarrow> float \<Rightarrow> GLuint \<Rightarrow> GLuint \<Rightarrow> Moon" where
  "Moon_new d s texture atmosphereTexture =
     \<lparr>moon_orbitAngle = 0, moon_distance = d, moon_size = s,
      moon_textureID = texture, moon_atmosphereTextureID = atmosphereTexture\<rparr>"

definition Moon_renderSphere :: "float \<Rightarrow> int \<Rightarrow> int \<Rightarrow> GL \<Rightarrow> GL" where
  "Moon_renderSphere radius slices stacks g = gluSphere radius slices stacks g"

definition Moon_render :: "Moon \<Rightarrow> GL \<Rightarrow> Moon \<times> GL" where
  "Moon_render m g0 =
     (let g = glPushMatrix g0;
          g = glRotatef (moon_orbitAngle m) 0 1 0 g;
          g = glTranslatef (moon_distance m) 0 0 g;
          g = glBindTexture (moon_textureID m) g;
          g = Moon_renderSphere (moon_size m) 30 30 g;
          g = glPushMatrix g;
          g = glRotatef (f32 (moon_orbitAngle m * (1/2))) 0 1 0 g;
          g = glBindTexture (moon_atmosphereTextureID m) g;
          g = glColor4f 1 1 1 (1/2) g;
          g = Moon_renderSphere (f32 (moon_size m + f32 (5/100))) 30 30 g;
          g = glColor4f 1 1 1 1 g;
          g = glPopMatrix g;
          g = glPopMatrix g
      in (m, g))"

definition Moon_update :: "Moon \<Rightarrow> Moon" where
  "Moon_update m0 =
     (let m = m0\<lparr>moon_orbitAngle := f32 (moon_orbitAngle m0 + 1/2)\<rparr>;
          m = (if 360 \<le> moon_orbitAngle m
               then m\<lparr>moon_orbitAngle := f32 (moon_orbitAngle m - 360)\<rparr> else m)
      in m)"

subsection \<open>Planet\<close>

definition RETURN_TO_ORIGINAL_DELAY :: Uint32 where
  "RETURN_TO_ORIGINAL_DELAY = 2000"

record Planet =
  rotationX :: float
  rotationY :: float
  zoom :: float
  passiveRotationSpeed :: float
  textureID :: GLuint
  atmosphereTextureID :: GLuint
  radius :: float
  atmosphereRadius :: float
  moon :: "Moon option"
  userRotationX :: float
  userRotationY :: float
  orbitRadius :: float
  orbitAngle :: float
  orbitSpeed :: float
  positionX :: float
  positionZ :: float

definition Planet_new ::
  "float \<Rightarrow> float \<Rightarrow> GLuint \<Rightarrow> GLuint \<Rightarrow> Moon option \<Rightarrow> float \<Rightarrow> float \<Rightarrow> Planet" where
  "Planet_new r atmosphereR texture atmosphereTexture m orbitR orbitS =
     \<lparr>rotationX = 0, rotationY = 0, zoom = 5, passiveRotationSpeed = f32 (1/10),
      textureID = texture, atmosphereTextureID = atmosphereTexture,
      radius = r, atmosphereRadius = atmosphereR, moon = m,
      userRotationX = 0, userRotationY = 0,
      orbitRadius = orbitR, orbitAngle = 0, orbitSpeed = orbitS,
      positionX = orbitR, positionZ = 0\<rparr>"

definition getRotationX :: "Planet \<Rightarrow> float" where
  "getRotationX p = rotationX p"

definition getRotationY :: "Planet \<Rightarrow> float" where
  "getRotationY p = rotationY p"

definition getZoom :: "Planet \<Rightarrow> float" where
  "getZoom p = zoom p"

definition setRotation :: "float \<Rightarrow> float \<Rightarrow> Planet \<Rightarrow> Planet" where
  "setRotation rotX rotY p = p\<lparr>userRotationX := rotX, userRotationY := rotY\<rparr>"

definition setZoom :: "float \<Rightarrow> Planet \<Rightarrow> Planet" where
  "setZoom z p = p\<lparr>zoom := z\<rparr>"

text \<open>
  \<open>currentTime\<close> is what \<^verbatim>\<open>SDL_GetTicks()\<close> returns at the call, \<open>lastInteractionTime\<close>
  the global of that name. Their difference is taken in \<^verbatim>\<open>Uint32\<close>, so it wraps.
  The member variables the method assigns are the bound variables below, one binding for
  each assignment in the order of the source; the object is written back at the end.
\<close>

definition Planet_update :: "libm \<Rightarrow> Uint32 \<Rightarrow> Uint32 \<Rightarrow> Planet \<Rightarrow> Planet" where
  "Planet_update L currentTime lastInteractionTime p =
     (let rotY = f32 (rotationY p + passiveRotationSpeed p);
          rotY = (if 360 \<le> rotY then f32 (rotY - 360) else rotY);
          angle = f32 (orbitAngle p + orbitSpeed p);
          angle = (if 360 \<le> angle then f32 (angle - 360) else angle);
          posX = f32 (orbitRadius p * cosf L (f32 (f64 (f64 (angle * M_PI) / 180))));
          posZ = f32 (orbitRadius p * sinf L (f32 (f64 (f64 (angle * M_PI) / 180))));
          userX = userRotationX p;
          userX = (if RETURN_TO_ORIGINAL_DELAY \<le> currentTime - lastInteractionTime
                      \<and> userX \<noteq> 0
                   then
                     (let x = (if 0 < userX then f32 (userX - 1/2) else userX);
                          x = (if x < 0 then f32 (x + 1/2) else x);
                          x = (if \<bar>x\<bar> < 1/2 then 0 else x)
                      in x)
                   else userX);
          mo = (case moon p of None \<Rightarrow> None | Some m \<Rightarrow> Some (Moon_update m))
      in p\<lparr>rotationY := rotY, orbitAngle := angle, positionX := posX, positionZ := posZ,
           userRotationX := userX, moon := mo\<rparr>)"

definition Planet_renderSphere :: "float \<Rightarrow> int \<Rightarrow> int \<Rightarrow> GL \<Rightarrow> GL" where
  "Planet_renderSphere r slices stacks g0 =
     (let g = glPushMatrix g0;
          g = glRotatef 90 1 0 0 g;
          g = gluSphere r slices stacks g;
          g = glPopMatrix g
      in g)"

definition Planet_render :: "Planet \<Rightarrow> GL \<Rightarrow> Planet \<times> GL" where
  "Planet_render p g0 =
     (let g = glPushMatrix g0;
          g = glTranslatef (positionX p) 0 (positionZ p) g;
          g = glRotatef (userRotationX p) 1 0 0 g;
          g = glRotatef (userRotationY p) 0 1 0 g;
          g = glRotatef (rotationY p) 0 1 0 g;
          g = glBindTexture (textureID p) g;
          g = Planet_renderSphere (radius p) 40 40 g;
          g = glPushMatrix g;
          g = glRotatef (f32 (rotationY p + 5)) 0 1 0 g;
          g = glBindTexture (atmosphereTextureID p) g;
          g = glColor4f 1 1 1 (1/2) g;
          g = Planet_renderSphere (atmosphereRadius p) 40 40 g;
          g = glColor4f 1 1 1 1 g;
          g = glPopMatrix g;
          (mo, g) = (case moon p of
                       None \<Rightarrow> (None, g)
                     | Some m \<Rightarrow> (let (m', g') = Moon_render m g in (Some m', g')));
          g = glPopMatrix g
      in (p\<lparr>moon := mo\<rparr>, g))"

subsection \<open>Sun\<close>

record Sun =
  sun_radius :: float
  sun_textureID :: GLuint

definition Sun_new :: "float \<Rightarrow> GLuint \<Rightarrow> Sun" where
  "Sun_new r texture = \<lparr>sun_radius = r, sun_textureID = texture\<rparr>"

definition Sun_render :: "Sun \<Rightarrow> GL \<Rightarrow> Sun \<times> GL" where
  "Sun_render s g0 =
     (let g = glPushMatrix g0;
          g = glBindTexture (sun_textureID s) g;
          g = Planet_renderSphere (sun_radius s) 40 40 g;
          g = glPopMatrix g
      in (s, g))"

definition Sun_update :: "Sun \<Rightarrow> Sun" where
  "Sun_update s = s"

subsection \<open>The base class: dispatch on the variant\<close>

datatype CelestialBody =
    A_Sun Sun
  | A_Planet Planet
  | A_Moon Moon

fun render :: "CelestialBody \<Rightarrow> GL \<Rightarrow> CelestialBody \<times> GL" where
  "render (A_Sun s) g = (let (s', g') = Sun_render s g in (A_Sun s', g'))"
| "render (A_Planet p) g = (let (p', g') = Planet_render p g in (A_Planet p', g'))"
| "render (A_Moon m) g = (let (m', g') = Moon_render m g in (A_Moon m', g'))"

fun update :: "libm \<Rightarrow> Uint32 \<Rightarrow> Uint32 \<Rightarrow> CelestialBody \<Rightarrow> CelestialBody" where
  "update L currentTime lastInteractionTime (A_Sun s) = A_Sun (Sun_update s)"
| "update L currentTime lastInteractionTime (A_Planet p) =
     A_Planet (Planet_update L currentTime lastInteractionTime p)"
| "update L currentTime lastInteractionTime (A_Moon m) = A_Moon (Moon_update m)"


section \<open>Input handling\<close>

definition MIN_ZOOM :: float where
  "MIN_ZOOM = f32 (21/10)"

definition MAX_ZOOM :: float where
  "MAX_ZOOM = f32 20"

definition SDL_BUTTON_LEFT :: Uint8 where
  "SDL_BUTTON_LEFT = 1"

text \<open>
  The events \<^verbatim>\<open>handleInput\<close> tells apart, with the fields it reads; \<open>SDL_OTHER\<close> stands
  for every other event type.
\<close>

datatype SDL_Event =
    SDL_QUIT
  | SDL_MOUSEMOTION Sint32 Sint32
  | SDL_MOUSEBUTTONDOWN Uint8 Sint32 Sint32
  | SDL_MOUSEBUTTONUP Uint8 Sint32 Sint32
  | SDL_MOUSEWHEEL Sint32
  | SDL_OTHER

text \<open>
  The globals of the program, with the two locals of \<^verbatim>\<open>main\<close> that \<^verbatim>\<open>handleInput\<close>
  receives by reference.
\<close>

record State =
  lastInteractionTime :: Uint32
  sphereRotationY :: float
  sphereRotationX :: float
  dragging :: bool
  lastMouseX :: Sint32
  lastMouseY :: Sint32
  running :: bool
  planet :: Planet

text \<open>
  \<open>ticks\<close> is what \<^verbatim>\<open>SDL_GetTicks()\<close> returns when the handler asks for it. The
  differences \<^verbatim>\<open>dx\<close> and \<^verbatim>\<open>dy\<close> are taken in 32 bits, two's complement, and read
  as signed numbers when they are converted to \<^verbatim>\<open>float\<close>; for coordinates inside a
  window they do not overflow.
\<close>

fun handleInput :: "SDL_Event \<Rightarrow> Uint32 \<Rightarrow> State \<Rightarrow> State" where
  "handleInput SDL_QUIT ticks s = s\<lparr>running := False\<rparr>"
| "handleInput (SDL_MOUSEMOTION x y) ticks s =
     (if dragging s then
        (let dx = x - lastMouseX s;
             dy = y - lastMouseY s;
             s = s\<lparr>sphereRotationY := f32 (sphereRotationY s + f32 (f32 (of_int (sint dx)) * (1/2)))\<rparr>;
             s = s\<lparr>sphereRotationX := f32 (sphereRotationX s - f32 (f32 (of_int (sint dy)) * (1/2)))\<rparr>;
             s = (if 40 < sphereRotationX s then s\<lparr>sphereRotationX := 40\<rparr> else s);
             s = (if sphereRotationX s < - 40 then s\<lparr>sphereRotationX := - 40\<rparr> else s);
             s = s\<lparr>lastMouseX := x\<rparr>;
             s = s\<lparr>lastMouseY := y\<rparr>;
             s = s\<lparr>planet := setRotation (sphereRotationX s) (sphereRotationY s) (planet s)\<rparr>;
             s = s\<lparr>lastInteractionTime := ticks\<rparr>
         in s)
      else s)"
| "handleInput (SDL_MOUSEBUTTONDOWN button x y) ticks s =
     (if button = SDL_BUTTON_LEFT
      then s\<lparr>dragging := True, lastMouseX := x, lastMouseY := y\<rparr>
      else s)"
| "handleInput (SDL_MOUSEBUTTONUP button x y) ticks s =
     (if button = SDL_BUTTON_LEFT then s\<lparr>dragging := False\<rparr> else s)"
| "handleInput (SDL_MOUSEWHEEL y) ticks s =
     (let s = (if 0 < sint y
               then s\<lparr>planet := setZoom (f32 (getZoom (planet s) - 1/2)) (planet s)\<rparr>
               else if sint y < 0
               then s\<lparr>planet := setZoom (f32 (getZoom (planet s) + 1/2)) (planet s)\<rparr>
               else s);
          s = (if getZoom (planet s) < MIN_ZOOM
               then s\<lparr>planet := setZoom MIN_ZOOM (planet s)\<rparr> else s);
          s = (if MAX_ZOOM < getZoom (planet s)
               then s\<lparr>planet := setZoom MAX_ZOOM (planet s)\<rparr> else s)
      in s)"
| "handleInput SDL_OTHER ticks s = s"


section \<open>The objects and globals \<^verbatim>\<open>main\<close> starts from\<close>

definition main_moon :: "GLuint \<Rightarrow> GLuint \<Rightarrow> Moon" where
  "main_moon moonTexture moonAtmosphereTexture =
     Moon_new 5 (f32 (27/100)) moonTexture moonAtmosphereTexture"

definition main_planet :: "GLuint \<Rightarrow> GLuint \<Rightarrow> Moon \<Rightarrow> Planet" where
  "main_planet planetTexture planetAtmosphereTexture m =
     Planet_new 1 (f32 (105/100)) planetTexture planetAtmosphereTexture (Some m) 20 (f32 (1/10))"

definition main_sun :: "GLuint \<Rightarrow> Sun" where
  "main_sun sunTexture = Sun_new 10 sunTexture"

definition main_state :: "Planet \<Rightarrow> State" where
  "main_state p =
     \<lparr>lastInteractionTime = 0, sphereRotationY = 0, sphereRotationX = 0, dragging = False,
      lastMouseX = 0, lastMouseY = 0, running = True, planet = p\<rparr>"

text \<open>Event handling and update ticks in sequence, each with the clock value it reads.\<close>

fun handleInputs :: "(SDL_Event \<times> Uint32) list \<Rightarrow> State \<Rightarrow> State" where
  "handleInputs [] s = s"
| "handleInputs ((e, ticks) # es) s = handleInputs es (handleInput e ticks s)"

fun updates :: "libm \<Rightarrow> (Uint32 \<times> Uint32) list \<Rightarrow> Planet \<Rightarrow> Planet" where
  "updates L [] p = p"
| "updates L ((currentTime, lastInteraction) # ts) p =
     updates L ts (Planet_update L currentTime lastInteraction p)"

text \<open>
  The loop of \<^verbatim>\<open>main\<close>. One pass handles the polled events and then updates the
  planet; the update of the sun does nothing, and rendering changes no body. The input is,
  for each pass, the events polled with the clock value each handler would read, and the
  clock value the update reads. The loop is entered only while \<^verbatim>\<open>running\<close> holds.
\<close>

definition frame :: "libm \<Rightarrow> (SDL_Event \<times> Uint32) list \<Rightarrow> Uint32 \<Rightarrow> State \<Rightarrow> State" where
  "frame L events currentTime s0 =
     (let s = handleInputs events s0
      in s\<lparr>planet := Planet_update L currentTime (lastInteractionTime s) (planet s)\<rparr>)"

fun main_loop :: "libm \<Rightarrow> ((SDL_Event \<times> Uint32) list \<times> Uint32) list \<Rightarrow> State \<Rightarrow> State" where
  "main_loop L [] s = s"
| "main_loop L ((events, currentTime) # fs) s =
     (if running s then main_loop L fs (frame L events currentTime s) else s)"


section \<open>Notions used in the statements\<close>

text \<open>The zoom limits, and the range of an angle that wraps around at 360 degrees.\<close>

definition zoom_ok :: "Planet \<Rightarrow> bool" where
  "zoom_ok p \<longleftrightarrow> MIN_ZOOM \<le> getZoom p \<and> getZoom p \<le> MAX_ZOOM"

definition angle_ok :: "float \<Rightarrow> bool" where
  "angle_ok a \<longleftrightarrow> 0 \<le> a \<and> a < 360"

definition angles_ok :: "Planet \<Rightarrow> bool" where
  "angles_ok p \<longleftrightarrow> angle_ok (rotationY p) \<and> angle_ok (orbitAngle p)
     \<and> (case moon p of None \<Rightarrow> True | Some m \<Rightarrow> angle_ok (moon_orbitAngle m))"

text \<open>
  The step the three angles share: \<^verbatim>\<open>a += s; if (a >= 360.0f) a -= 360.0f;\<close>.
  \<^verbatim>\<open>Moon::update\<close> and \<^verbatim>\<open>Planet::update\<close> spell it out; the lemmas
  \<open>Moon_update_orbitAngle\<close>, \<open>Planet_update_rotationY\<close> and \<open>Planet_update_orbitAngle\<close>
  below relate them to it.
\<close>

definition advance :: "float \<Rightarrow> float \<Rightarrow> float" where
  "advance s a = (let b = f32 (a + s) in if 360 \<le> b then f32 (b - 360) else b)"

text \<open>
  The invariant that keeps an angle in its range under that step. The binary32 numbers
  below 360 end at 360 - 1/32768, so an angle below 360 is at most that; a speed below 360
  added to it stays below 720 - 1/32768, from where rounding cannot reach 720, and one
  subtraction of 360 is enough. At speed 360 exactly, an angle that is 0 stays 0.
\<close>

definition wraps :: "float \<Rightarrow> float \<Rightarrow> bool" where
  "wraps s a \<longleftrightarrow> 0 \<le> s \<and> 0 \<le> a \<and> (s < 360 \<and> a \<le> 360 - 1 / 2 ^ 15 \<or> s = 360 \<and> a = 0)"

definition angles_wrap :: "Planet \<Rightarrow> bool" where
  "angles_wrap p \<longleftrightarrow> wraps (passiveRotationSpeed p) (rotationY p)
     \<and> wraps (orbitSpeed p) (orbitAngle p)
     \<and> (case moon p of None \<Rightarrow> True | Some m \<Rightarrow> wraps (1/2) (moon_orbitAngle m))"

text \<open>
  The user rotations from which the idle decay of \<^verbatim>\<open>Planet::update\<close> runs as
  intended: the binary32 numbers of magnitude at most 8388608 (two to the 23) other than
  the negative ones of magnitude 1/67108864 (two to the -26) or less. On these, one idle
  update takes the step \<open>decay\<close>: 0.5 towards 0, and exactly 0 when that lands within 0.5
  of 0, which is when the rotation was within 1 of 0. The values the drag handler can
  store (multiples of 0.5 between -40 and 40) are among them.
\<close>

definition decays :: "float \<Rightarrow> bool" where
  "decays x \<longleftrightarrow> f32 x = x \<and> - (2 ^ 23) \<le> x \<and> x \<le> 2 ^ 23 \<and> (0 \<le> x \<or> x < - (1 / 2 ^ 26))"

definition decay :: "float \<Rightarrow> float" where
  "decay x = (if \<bar>x\<bar> < 1 then 0 else if 0 < x then x - 1/2 else x + 1/2)"

definition half_grid :: "float \<Rightarrow> bool" where
  "half_grid x \<longleftrightarrow> (\<exists>k. \<bar>k\<bar> \<le> 80 \<and> x = of_int k / 2)"


text \<open>
  The frame \<^verbatim>\<open>Planet::render\<close> has set up once the translation to the planet's
  position and the two user rotations are on the matrix; the second sphere the method
  draws, which is the atmosphere shell; and an OpenGL context with the identity matrix and
  nothing drawn.
\<close>

definition user_frame :: "Planet \<Rightarrow> GL \<Rightarrow> xform list" where
  "user_frame p g = modelview g @
     [Translate (positionX p) 0 (positionZ p),
      Rotate (userRotationX p) 1 0 0,
      Rotate (userRotationY p) 0 1 0]"

definition atmosphere_shell :: "Planet \<Rightarrow> GL \<Rightarrow> sphere" where
  "atmosphere_shell p g = drawn (snd (Planet_render p g)) ! (length (drawn g) + 1)"

definition GL_init :: GL where
  "GL_init = \<lparr>modelview = [], matrix_stack = [], bound_texture = 0,
     current_color = (1, 1, 1, 1), drawn = []\<rparr>"


section \<open>Rounding to the nearest representable number\<close>

subsection \<open>Rounding to an integer, ties to even\<close>

lemma rne_of_int: "rne (of_int n) = n"
  by (simp add: rne_def)

lemma rne_ge_floor: "\<lfloor>x\<rfloor> \<le> rne x"
  by (simp add: rne_def Let_def)

lemma rne_le_floor1: "rne x \<le> \<lfloor>x\<rfloor> + 1"
  by (simp add: rne_def Let_def)

lemma rne_mono: 
  assumes "x \<le> y" shows "rne x \<le> rne y"
proof (cases "\<lfloor>x\<rfloor> = \<lfloor>y\<rfloor>")
  case True
  with assms have "x - of_int \<lfloor>x\<rfloor> \<le> y - of_int \<lfloor>y\<rfloor>" by simp
  with True show ?thesis by (auto simp: rne_def Let_def)
next
  case False
  with assms have "\<lfloor>x\<rfloor> + 1 \<le> \<lfloor>y\<rfloor>" using floor_mono [of x y] by linarith
  with rne_le_floor1 [of x] rne_ge_floor [of y] show ?thesis by linarith
qed

lemma rne_minus: "rne (- x) = - rne x"
proof (cases "x \<in> \<int>")
  case True
  then obtain n where "x = of_int n" by (auto elim: Ints_cases)
  then have "- x = of_int (- n)" by simp
  then show ?thesis using rne_of_int \<open>x = of_int n\<close> by metis
next
  case False
  then have ne: "x \<noteq> of_int \<lfloor>x\<rfloor>"
    by (metis Ints_of_int)
  then have f: "\<lfloor>- x\<rfloor> = - \<lfloor>x\<rfloor> - 1"
    by (simp add: floor_minus ceiling_altdef)
  have r: "0 < x - of_int \<lfloor>x\<rfloor>" using ne of_int_floor_le [of x] by linarith
  show ?thesis
    unfolding rne_def Let_def f using r by (auto simp: field_simps)
qed

lemma rne_add_int: "x - of_int \<lfloor>x\<rfloor> \<noteq> 1/2 \<Longrightarrow> rne (of_int m + x) = m + rne x"
  by (simp add: rne_def Let_def)

lemma rne_nonneg: "0 \<le> x \<Longrightarrow> 0 \<le> rne x"
  using rne_mono [of 0 x] rne_of_int [of 0] by simp

lemma rne_le_of_lt: "x < of_int M + 1/2 \<Longrightarrow> rne x \<le> M"
  unfolding rne_def Let_def by (auto; linarith)


subsection \<open>The binary exponent\<close>

lemma powi_split: "(2::real) powi (a + b) = 2 powi a * 2 powi b"
  by (simp add: power_int_add)

lemma powi_pos: "0 < (2::real) powi a"
  by simp

lemma powi_nat: "0 \<le> k \<Longrightarrow> (2::real) powi k = 2 ^ nat k"
  by (simp add: power_int_def)

lemma powi_mono: "a \<le> b \<Longrightarrow> (2::real) powi a \<le> 2 powi b"
  by (rule power_int_increasing) simp_all

lemma powi_less_cancel: "(2::real) powi a < 2 powi b \<Longrightarrow> a < b"
  using powi_mono [of b a] by (cases "a < b") auto

lemma bitlen_eqI: 
  assumes "2 ^ j \<le> n" "n < 2 ^ (Suc j)" shows "bitlen n = int j + 1"
proof (rule antisym)
  show "bitlen n \<le> int j + 1"
    using assms by (simp add: bitlen_le_iff_power nat_add_distrib)
  show "int j + 1 \<le> bitlen n"
    using assms by (simp add: bitlen_ge_iff_power nat_add_distrib)
qed

lemma expo_ge: "emin \<le> expo emin x"
  by (simp add: expo_def)

lemma expo_small:
  assumes "\<bar>x\<bar> < 2 powi emin" shows "expo emin x = emin"
proof -
  have "\<bar>x\<bar> * 2 powi (- emin) < 2 powi emin * 2 powi (- emin)"
    using assms by (simp)
  also have "\<dots> = 1" by (simp flip: powi_split)
  finally have "\<lfloor>\<bar>x\<bar> * 2 powi (- emin)\<rfloor> = 0"
    by (simp add: floor_eq_iff)
  then show ?thesis by (simp add: expo_def)
qed

lemma expo_normal:
  assumes "emin \<le> k" "2 powi k \<le> \<bar>x\<bar>" "\<bar>x\<bar> < 2 powi (k + 1)"
  shows "expo emin x = k"
proof -
  define j where "j = nat (k - emin)"
  define y where "y = \<bar>x\<bar> * 2 powi (- emin)"
  have j: "int j = k - emin" using assms(1) by (simp add: j_def)
  have "2 powi k * 2 powi (- emin) \<le> y"
    unfolding y_def using assms(2) by (simp)
  then have lo: "2 ^ j \<le> y"
    by (simp flip: powi_split add: j_def powi_nat assms(1))
  have "y < 2 powi (k + 1) * 2 powi (- emin)"
    unfolding y_def using assms(3) by (simp)
  also have "\<dots> = 2 powi (int (Suc j))"
    by (simp flip: powi_split add: j algebra_simps)
  finally have hi: "y < 2 ^ (Suc j)"
    by (simp only: power_int_of_nat)
  have "2 ^ j \<le> \<lfloor>y\<rfloor>" using lo by (simp add: le_floor_iff)
  moreover have "\<lfloor>y\<rfloor> < 2 ^ (Suc j)" using hi by (simp add: floor_less_iff)
  ultimately have "bitlen \<lfloor>y\<rfloor> = int j + 1" by (rule bitlen_eqI)
  then show ?thesis
    using assms(1) by (simp add: expo_def y_def [symmetric] j)
qed

lemma expo_eqI:
  assumes "emin \<le> k" "k = emin \<or> 2 powi k \<le> \<bar>x\<bar>" "\<bar>x\<bar> < 2 powi (k + 1)"
  shows "expo emin x = k"
proof (cases "2 powi k \<le> \<bar>x\<bar>")
  case True
  with assms show ?thesis by (simp add: expo_normal)
next
  case False
  with assms have "k = emin" "\<bar>x\<bar> < 2 powi emin" by auto
  then show ?thesis by (simp add: expo_small)
qed

lemma expo_upper: "\<bar>x\<bar> < 2 powi (expo emin x + 1)"
proof (cases "\<bar>x\<bar> < 2 powi emin")
  case True
  then have "expo emin x = emin" by (rule expo_small)
  moreover have "(2::real) powi emin \<le> 2 powi (emin + 1)" by (rule powi_mono) simp
  ultimately show ?thesis using True by simp
next
  case False
  define y where "y = \<bar>x\<bar> * 2 powi (- emin)"
  have "2 powi emin * 2 powi (- emin) \<le> y"
    unfolding y_def using False by (simp)
  then have y1: "1 \<le> y" by (simp flip: powi_split)
  then have n: "0 < \<lfloor>y\<rfloor>" by simp
  define b where "b = bitlen \<lfloor>y\<rfloor>"
  have b1: "1 \<le> b" using n by (simp add: b_def bitlen_ge_iff_power)
  have e: "expo emin x = b - 1 + emin"
    using b1 by (simp add: expo_def y_def [symmetric] b_def [symmetric])
  have "\<lfloor>y\<rfloor> < 2 ^ nat b" using bitlen_bounds [OF n] by (simp add: b_def)
  then have "y < 2 ^ nat b" by (simp add: floor_less_iff)
  then have "y < 2 powi b" using b1 by (simp add: powi_nat)
  then have "y * 2 powi emin < 2 powi b * 2 powi emin" by simp
  moreover have "y * 2 powi emin = \<bar>x\<bar>"
    by (simp add: y_def power_int_minus)
  ultimately show ?thesis
    unfolding e by (simp flip: powi_split add: algebra_simps)
qed

lemma expo_lower: 
  assumes "2 powi emin \<le> \<bar>x\<bar>" shows "2 powi (expo emin x) \<le> \<bar>x\<bar>"
proof -
  define y where "y = \<bar>x\<bar> * 2 powi (- emin)"
  have "2 powi emin * 2 powi (- emin) \<le> y"
    unfolding y_def using assms by (simp)
  then have y1: "1 \<le> y" by (simp flip: powi_split)
  then have n: "0 < \<lfloor>y\<rfloor>" by simp
  define b where "b = bitlen \<lfloor>y\<rfloor>"
  have b1: "1 \<le> b" using n by (simp add: b_def bitlen_ge_iff_power)
  have e: "expo emin x = b - 1 + emin"
    using b1 by (simp add: expo_def y_def [symmetric] b_def [symmetric])
  have "2 ^ nat (b - 1) \<le> \<lfloor>y\<rfloor>" using bitlen_bounds [OF n] by (simp add: b_def)
  then have "2 ^ nat (b - 1) \<le> y" by (simp add: le_floor_iff)
  then have "2 powi (b - 1) \<le> y" using b1 by (simp add: powi_nat)
  then have "2 powi (b - 1) * 2 powi emin \<le> y * 2 powi emin" by simp
  moreover have "y * 2 powi emin = \<bar>x\<bar>"
    by (simp add: y_def power_int_minus)
  ultimately show ?thesis
    unfolding e by (simp flip: powi_split add: algebra_simps)
qed

lemma expo_minus: "expo emin (- x) = expo emin x"
  by (simp add: expo_def)

lemma expo_mono:
  assumes "\<bar>x\<bar> \<le> \<bar>y\<bar>" shows "expo emin x \<le> expo emin y"
proof (cases "\<bar>x\<bar> < 2 powi emin")
  case True
  then show ?thesis by (simp add: expo_small expo_ge)
next
  case False
  then have "2 powi (expo emin x) \<le> \<bar>x\<bar>" by (simp add: expo_lower)
  also have "\<bar>x\<bar> \<le> \<bar>y\<bar>" by fact
  also have "\<bar>y\<bar> < 2 powi (expo emin y + 1)" by (rule expo_upper)
  finally have "expo emin x < expo emin y + 1"
    by (rule powi_less_cancel)
  then show ?thesis by simp
qed

subsection \<open>Rounding: sign, exact values, monotonicity\<close>

lemma ulp_pos: "0 < ulp p emin x"
  by (simp add: ulp_def)

lemma ulp_minus: "ulp p emin (- x) = ulp p emin x"
  by (simp add: ulp_def expo_minus)

lemma rnd_minus: "rnd p emin (- x) = - rnd p emin x"
  by (simp add: rnd_def ulp_minus rne_minus)

lemma rnd_0: "rnd p emin 0 = 0"
  by (simp add: rnd_def rne_def)

lemma rnd_nonneg: "0 \<le> x \<Longrightarrow> 0 \<le> rnd p emin x"
  using ulp_pos [of p emin x] by (simp add: rnd_def rne_nonneg)

lemma rnd_eqI:
  assumes "emin \<le> k" "k = emin \<or> 2 powi k \<le> \<bar>x\<bar>" "\<bar>x\<bar> < 2 powi (k + 1)"
  shows "rnd p emin x = of_int (rne (x / 2 powi (k - int p + 1))) * 2 powi (k - int p + 1)"
  using expo_eqI [OF assms] by (simp add: rnd_def ulp_def)

lemma expo_less:
  assumes "\<bar>x\<bar> < 2 powi k" "emin < k" shows "expo emin x < k"
proof (cases "\<bar>x\<bar> < 2 powi emin")
  case True
  then show ?thesis using assms(2) by (simp add: expo_small)
next
  case False
  then have "2 powi (expo emin x) \<le> \<bar>x\<bar>" by (simp add: expo_lower)
  with assms(1) have "(2::real) powi (expo emin x) < 2 powi k" by simp
  then show ?thesis by (rule powi_less_cancel)
qed

lemma rnd_exact:
  assumes x: "x = of_int n * 2 powi j" and n: "\<bar>n\<bar> < 2 ^ p" and j: "emin - int p + 1 \<le> j"
  shows "rnd p emin x = x"
proof -
  define e where "e = expo emin x"
  have "\<bar>x\<bar> = of_int \<bar>n\<bar> * 2 powi j" by (simp add: x abs_mult)
  also have "\<dots> < 2 ^ p * 2 powi j"
    using n by (simp add: of_int_less_numeral_power_cancel_iff [symmetric] del: of_int_abs)
  also have "\<dots> = 2 powi (int p + j)" by (simp add: powi_split)
  finally have "\<bar>x\<bar> < 2 powi (int p + j)" .
  moreover have "emin < int p + j" using j by simp
  ultimately have "e < int p + j" unfolding e_def by (rule expo_less)
  then have d: "0 \<le> j - (e - int p + 1)" by simp
  define d where "d = nat (j - (e - int p + 1))"
  have "j = int d + (e - int p + 1)"
    using \<open>0 \<le> j - (e - int p + 1)\<close> by (simp add: d_def)
  then have "(2::real) powi j = 2 powi (int d + (e - int p + 1))"
    by (rule arg_cong)
  also have "\<dots> = 2 ^ d * 2 powi (e - int p + 1)"
    by (simp only: powi_split power_int_of_nat)
  finally have "x / 2 powi (e - int p + 1) = of_int (n * 2 ^ d)"
    by (simp add: x)
  then have "rne (x / 2 powi (e - int p + 1)) = n * 2 ^ d"
    by (simp only: rne_of_int)
  then have "rnd p emin x = of_int (n * 2 ^ d) * 2 powi (e - int p + 1)"
    by (simp add: rnd_def ulp_def e_def)
  also have "\<dots> = x"
    using \<open>x / 2 powi (e - int p + 1) = of_int (n * 2 ^ d)\<close> by (simp add: field_simps)
  finally show ?thesis .
qed

lemma rnd_upper:
  assumes "0 \<le> x" shows "rnd p emin x \<le> 2 powi (expo emin x + 1)"
proof -
  define e where "e = expo emin x"
  define u where "u = (2::real) powi (e - int p + 1)"
  have u: "0 < u" by (simp add: u_def)
  have "x < 2 powi (e + 1)" using expo_upper [of x emin] assms by (simp add: e_def)
  also have "\<dots> = 2 ^ p * u"
    by (simp add: u_def flip: power_int_of_nat powi_split)
  finally have "x / u \<le> of_int (2 ^ p)" using u by (simp add: field_simps)
  then have "rne (x / u) \<le> rne (of_int (2 ^ p))" by (rule rne_mono)
  then have "rne (x / u) \<le> 2 ^ p" by (simp only: rne_of_int)
  then have "real_of_int (rne (x / u)) \<le> 2 ^ p"
    by (metis of_int_le_iff of_int_numeral of_int_power)
  then have "of_int (rne (x / u)) * u \<le> 2 ^ p * u" using u by simp
  also have "\<dots> = 2 powi (e + 1)"
    by (simp add: u_def flip: power_int_of_nat powi_split)
  finally show ?thesis by (simp add: rnd_def ulp_def e_def u_def)
qed

lemma rnd_lower:
  assumes "2 powi emin \<le> x" "0 < p" shows "2 powi (expo emin x) \<le> rnd p emin x"
proof -
  define e where "e = expo emin x"
  define u where "u = (2::real) powi (e - int p + 1)"
  have u: "0 < u" by (simp add: u_def)
  have x0: "0 \<le> x" using assms(1) powi_pos [of emin] by linarith
  have eq: "2 ^ (p - 1) * u = 2 powi e"
    using assms(2) by (simp add: u_def of_nat_diff flip: power_int_of_nat powi_split)
  have "2 powi e \<le> x" using expo_lower [of emin x] assms(1) x0 by (simp add: e_def)
  then have "of_int (2 ^ (p - 1)) \<le> x / u" using u by (simp add: field_simps flip: eq)
  then have "rne (of_int (2 ^ (p - 1))) \<le> rne (x / u)" by (rule rne_mono)
  then have "2 ^ (p - 1) \<le> rne (x / u)" by (simp only: rne_of_int)
  then have "2 ^ (p - 1) \<le> real_of_int (rne (x / u))"
    by (metis of_int_le_iff of_int_numeral of_int_power)
  then have "2 ^ (p - 1) * u \<le> of_int (rne (x / u)) * u" using u by simp
  then have "2 powi e \<le> of_int (rne (x / u)) * u" by (simp only: eq)
  moreover have "rnd p emin x = of_int (rne (x / u)) * u"
    by (simp add: rnd_def ulp_def e_def u_def)
  ultimately show ?thesis by (simp only: e_def)
qed

lemma rnd_mono_nonneg:
  assumes "0 \<le> x" "x \<le> y" "0 < p" shows "rnd p emin x \<le> rnd p emin y"
proof (cases "expo emin x = expo emin y")
  case True
  have "x / ulp p emin y \<le> y / ulp p emin y"
    using assms(2) ulp_pos [of p emin y] by (simp add: divide_right_mono)
  then have "rne (x / ulp p emin y) \<le> rne (y / ulp p emin y)" by (rule rne_mono)
  then show ?thesis
    using True ulp_pos [of p emin y] by (simp add: rnd_def ulp_def)
next
  case False
  have "expo emin x \<le> expo emin y" using assms by (intro expo_mono) simp
  with False have lt: "expo emin x + 1 \<le> expo emin y" by simp
  have "emin < expo emin y" using lt expo_ge [of emin x] by linarith
  then have "\<not> \<bar>y\<bar> < 2 powi emin" using expo_small [of y emin] by auto
  then have y: "2 powi emin \<le> y" using assms by simp
  have "rnd p emin x \<le> 2 powi (expo emin x + 1)" using assms(1) by (rule rnd_upper)
  also have "\<dots> \<le> 2 powi (expo emin y)" using lt by (rule powi_mono)
  also have "\<dots> \<le> rnd p emin y" using y assms(3) by (rule rnd_lower)
  finally show ?thesis .
qed

lemma rnd_mono:
  assumes "x \<le> y" "0 < p" shows "rnd p emin x \<le> rnd p emin y"
proof -
  consider "0 \<le> x" | "y \<le> 0" | "x < 0" "0 < y" by linarith
  then show ?thesis
  proof cases
    case 1
    then show ?thesis using assms by (simp add: rnd_mono_nonneg)
  next
    case 2
    then have "rnd p emin (- y) \<le> rnd p emin (- x)"
      using assms by (intro rnd_mono_nonneg) simp_all
    then show ?thesis by (simp add: rnd_minus)
  next
    case 3
    have "rnd p emin (- x) \<ge> 0" using 3 by (intro rnd_nonneg) simp
    moreover have "rnd p emin y \<ge> 0" using 3 by (intro rnd_nonneg) simp
    ultimately show ?thesis by (simp add: rnd_minus)
  qed
qed



subsection \<open>binary32\<close>

lemma f32_mono: "x \<le> y \<Longrightarrow> f32 x \<le> f32 y"
  by (simp add: f32_def rnd_mono)

lemma f32_minus: "f32 (- x) = - f32 x"
  by (simp add: f32_def rnd_minus)

lemma f32_0: "f32 0 = 0"
  by (simp add: f32_def rnd_0)

lemma f32_exact:
  "x = of_int n * 2 powi j \<Longrightarrow> \<bar>n\<bar> < 2 ^ 24 \<Longrightarrow> - 149 \<le> j \<Longrightarrow> f32 x = x"
  unfolding f32_def by (rule rnd_exact [where n = n and j = j]) simp_all

lemma f32_int: "\<bar>n\<bar> < 2 ^ 24 \<Longrightarrow> f32 (of_int n) = of_int n"
  by (rule f32_exact [where n = n and j = 0]) simp_all

lemma f32_eqI:
  assumes "- 126 \<le> k" "k = - 126 \<or> 2 powi k \<le> \<bar>x\<bar>" "\<bar>x\<bar> < 2 powi (k + 1)"
  shows "f32 x = of_int (rne (x / 2 powi (k - 23))) * 2 powi (k - 23)"
  using rnd_eqI [OF assms, of 24] by (simp add: f32_def)

lemma f32_20: "f32 20 = 20"
  using f32_int [of 20] by simp


lemma f32_half_int: "\<bar>n\<bar> < 2 ^ 24 \<Longrightarrow> f32 (of_int n / 2) = of_int n / 2"
  by (rule f32_exact [where n = n and j = "- 1"]) simp_all

lemma f32_15: "f32 15 = 15"
  using f32_int [of 15] by simp

lemma f32_25: "f32 25 = 25"
  using f32_int [of 25] by simp

lemma f32_30: "f32 30 = 30"
  using f32_int [of 30] by simp

lemma f32_50: "f32 50 = 50"
  using f32_int [of 50] by simp

lemma f32_90: "f32 90 = 90"
  using f32_int [of 90] by simp

lemma f32_360: "f32 360 = 360"
  using f32_int [of 360] by simp

text \<open>\<^verbatim>\<open>0.1f\<close>, the passive rotation speed and the orbit speed \<^verbatim>\<open>main\<close> passes.\<close>

lemma f32_tenth: "f32 (1/10) = 13421773 / 134217728"
  by (subst f32_eqI [where k = "- 4"]) (simp_all add: rne_def)

text \<open>Beyond 24 bits an integer rounds to an integer, a half-integer to a half-integer.\<close>

lemma f32_int_is_int: "\<exists>k. f32 (of_int n) = of_int k"
proof (cases "\<bar>n\<bar> < 2 ^ 24")
  case True
  then show ?thesis using f32_int by blast
next
  case False
  define e where "e = expo (- 126) (of_int n)"
  have "(2::real) powi 24 \<le> \<bar>of_int n\<bar>"
    using False
    by (simp add: numeral_power_le_of_int_cancel_iff [symmetric]
        del: numeral_power_le_of_int_cancel_iff)
  also have "\<bar>of_int n :: real\<bar> < 2 powi (e + 1)" unfolding e_def by (rule expo_upper)
  finally have "24 < e + 1" by (rule powi_less_cancel)
  then have "(2::real) powi (e - 23) = of_int (2 ^ nat (e - 23))"
    by (simp add: powi_nat)
  then have "f32 (of_int n) = of_int (rne (of_int n / 2 powi (e - 23)) * 2 ^ nat (e - 23))"
    by (simp add: f32_def rnd_def ulp_def e_def)
  then show ?thesis by blast
qed

lemma f32_half_is_half: "\<exists>k. f32 (of_int n / 2) = of_int k / 2"
proof (cases "\<bar>n\<bar> < 2 ^ 24")
  case True
  then show ?thesis using f32_half_int by blast
next
  case False
  define e where "e = expo (- 126) (of_int n / 2)"
  have "(2::real) powi 24 \<le> \<bar>of_int n\<bar>"
    using False
    by (simp add: numeral_power_le_of_int_cancel_iff [symmetric]
        del: numeral_power_le_of_int_cancel_iff)
  then have "(2::real) powi 23 \<le> \<bar>of_int n / 2\<bar>" by simp
  also have "\<bar>of_int n / 2 :: real\<bar> < 2 powi (e + 1)" unfolding e_def by (rule expo_upper)
  finally have "23 < e + 1" by (rule powi_less_cancel)
  then have "(2::real) powi (e - 23) = of_int (2 ^ nat (e - 23))"
    by (simp add: powi_nat)
  then have "f32 (of_int n / 2)
      = of_int (2 * (rne (of_int n / 2 / 2 powi (e - 23)) * 2 ^ nat (e - 23))) / 2"
    by (simp add: f32_def rnd_def ulp_def e_def)
  then show ?thesis by blast
qed




text \<open>
  Rounding near a binary32 number \<open>M * 2 powi (k - 23)\<close> of the binade of \<open>2 powi k\<close>:
  what lies below the midpoint to its successor rounds to it or lower, and a rounded
  number below it is at most its predecessor.
\<close>

lemma f32_round_down:
  assumes k: "- 126 \<le> k" and lo: "(2::real) powi k \<le> of_int M * 2 powi (k - 23)"
    and hi: "of_int M * 2 powi (k - 23) < (2::real) powi (k + 1)"
    and x: "x < of_int M * 2 powi (k - 23) + 2 powi (k - 23) / 2"
  shows "f32 x \<le> of_int M * 2 powi (k - 23)"
proof (cases "x < 2 powi k")
  case True
  have "f32 x \<le> f32 (2 powi k)" using True by (intro f32_mono) simp
  also have "f32 (2 powi k) = 2 powi k"
    using k by (intro f32_exact [where n = 1 and j = k]) simp_all
  finally show ?thesis using lo by linarith
next
  case False
  define u where "u = (2::real) powi (k - 23)"
  have u: "0 < u" by (simp add: u_def)
  have e: "2 powi (k + 1) = 2 ^ 24 * u"
    by (simp add: u_def power_int_diff power_int_add)
  have "real_of_int M * u < real_of_int (2 ^ 24) * u" using hi by (simp add: e u_def)
  then have "real_of_int M < real_of_int (2 ^ 24)" using u by (simp only: mult_less_cancel_right_pos)
  then have "M < 2 ^ 24" by (simp only: of_int_less_iff)
  then have "M + 1 \<le> 2 ^ 24" by simp
  then have "real_of_int (M + 1) \<le> real_of_int (2 ^ 24)" by (simp only: of_int_le_iff)
  then have "real_of_int M + 1 \<le> 2 ^ 24" by simp
  then have "(real_of_int M + 1) * u \<le> 2 ^ 24 * u" using u by (simp only: mult_le_cancel_right_pos)
  moreover have "x < (real_of_int M + 1) * u"
    using x u by (simp add: u_def [symmetric] algebra_simps)
  ultimately have "x < 2 powi (k + 1)" unfolding e by linarith
  moreover have "0 \<le> x" using False powi_pos [of k] by linarith
  ultimately have "f32 x = of_int (rne (x / u)) * u"
    unfolding u_def using False k by (intro f32_eqI) auto
  moreover have "x / u < of_int M + 1/2" using x u by (simp add: u_def [symmetric] field_simps)
  then have "rne (x / u) \<le> M" by (rule rne_le_of_lt)
  then have "real_of_int (rne (x / u)) \<le> real_of_int M" by (simp only: of_int_le_iff)
  then have "real_of_int (rne (x / u)) * u \<le> real_of_int M * u"
    using u by (simp only: mult_le_cancel_right_pos)
  ultimately show ?thesis by (simp add: u_def)
qed

lemma f32_gap:
  assumes k: "- 126 \<le> k" and lo: "(2::real) powi k < of_int M * 2 powi (k - 23)"
    and hi: "of_int M * 2 powi (k - 23) \<le> (2::real) powi (k + 1)"
    and x: "f32 x < of_int M * 2 powi (k - 23)"
  shows "f32 x \<le> of_int (M - 1) * 2 powi (k - 23)"
proof -
  define u where "u = (2::real) powi (k - 23)"
  have u: "0 < u" by (simp add: u_def)
  have e0: "2 powi k = 2 ^ 23 * u"
    by (simp add: u_def power_int_diff)
  have e1: "2 powi (k + 1) = 2 ^ 24 * u"
    by (simp add: u_def power_int_diff power_int_add)
  have "real_of_int (2 ^ 23) * u < real_of_int M * u" using lo by (simp add: e0 u_def)
  then have "real_of_int (2 ^ 23) < real_of_int M" using u by (simp only: mult_less_cancel_right_pos)
  then have "2 ^ 23 < M" by (simp only: of_int_less_iff)
  then have "2 ^ 23 \<le> M - 1" by simp
  then have "real_of_int (2 ^ 23) \<le> real_of_int (M - 1)" by (simp only: of_int_le_iff)
  then have "real_of_int (2 ^ 23) * u \<le> real_of_int (M - 1) * u"
    using u by (simp only: mult_le_cancel_right_pos)
  then have lo': "2 powi k \<le> of_int (M - 1) * u" by (simp add: e0)
  have k2: "f32 (2 powi k) = 2 powi k"
    using k by (intro f32_exact [where n = 1 and j = k]) simp_all
  have k3: "f32 (2 powi (k + 1)) = 2 powi (k + 1)"
    using k by (intro f32_exact [where n = 1 and j = "k + 1"]) simp_all
  consider "x < 2 powi k" | "2 powi (k + 1) \<le> x" | "2 powi k \<le> x" "x < 2 powi (k + 1)"
    by linarith
  then show ?thesis
  proof cases
    case 1
    have "f32 x \<le> f32 (2 powi k)" using 1 by (intro f32_mono) simp
    then show ?thesis using lo' k2 by (simp add: u_def)
  next
    case 2
    have "f32 (2 powi (k + 1)) \<le> f32 x" using 2 by (intro f32_mono)
    then show ?thesis using x hi k3 by linarith
  next
    case 3
    have "0 \<le> x" using 3 powi_pos [of k] by linarith
    then have fx: "f32 x = of_int (rne (x / u)) * u"
      unfolding u_def using 3 k by (intro f32_eqI) auto
    have "real_of_int (rne (x / u)) * u < real_of_int M * u"
      using x by (simp add: fx u_def)
    then have "real_of_int (rne (x / u)) < real_of_int M"
      using u by (simp only: mult_less_cancel_right_pos)
    then have "rne (x / u) < M" by (simp only: of_int_less_iff)
    then have "rne (x / u) \<le> M - 1" by simp
    then have "real_of_int (rne (x / u)) \<le> real_of_int (M - 1)" by (simp only: of_int_le_iff)
    then have "real_of_int (rne (x / u)) * u \<le> real_of_int (M - 1) * u"
      using u by (simp only: mult_le_cancel_right_pos)
    then show ?thesis by (simp add: fx u_def)
  qed
qed

lemma f32_below_360: "f32 x < 360 \<Longrightarrow> f32 x \<le> 360 - 1 / 2 ^ 15"
  using f32_gap [of 8 11796480 x] by (simp add: power_int_minus)

lemma f32_below_1: "f32 x < 1 \<Longrightarrow> f32 x \<le> 1 - 1 / 2 ^ 24"
  using f32_gap [of "- 1" 16777216 x] by (simp add: power_int_minus)

lemma f32_below_half: "f32 x < 1 / 2 \<Longrightarrow> f32 x \<le> 1 / 2 - 1 / 2 ^ 25"
  using f32_gap [of "- 2" 16777216 x] by (simp add: power_int_minus)

lemma f32_below_720: "x < 720 - 1 / 2 ^ 15 \<Longrightarrow> f32 x \<le> 720 - 1 / 2 ^ 14"
  using f32_round_down [of 9 11796479 x] by (simp add: power_int_minus)

lemma f32_below_half_mid: "x < 1 / 2 - 1 / 2 ^ 26 \<Longrightarrow> f32 x \<le> 1 / 2 - 1 / 2 ^ 25"
  using f32_round_down [of "- 2" 16777215 x] by (simp add: power_int_minus)

text \<open>
  Subtracting 0.5 from a binary32 number between 1 and 8388608 is exact: the difference
  lies on the grid of the number's binade, or on the finer grid of the binade below.
\<close>

lemma f32_sub_half:
  assumes fx: "f32 x = x" and x1: "1 \<le> x" and x2: "x \<le> 2 ^ 23"
  shows "f32 (x - 1/2) = x - 1/2"
proof (cases "x = 2 ^ 23")
  case True
  have "f32 (of_int 16777215 / 2) = of_int 16777215 / 2" by (rule f32_half_int) simp
  then show ?thesis by (simp add: True)
next
  case False
  define e where "e = expo (- 126) x"
  define u where "u = (2::real) powi (e - 23)"
  define m where "m = rne (x / u)"
  have u: "0 < u" by (simp add: u_def)
  have xm: "x = of_int m * u"
    using fx by (simp add: f32_def rnd_def ulp_def e_def u_def m_def)
  have "(2::real) powi (- 126) \<le> 2 powi 0" by (rule powi_mono) simp
  then have "2 powi (- 126) \<le> \<bar>x\<bar>" using x1 by simp
  then have "2 powi e \<le> \<bar>x\<bar>" unfolding e_def by (rule expo_lower)
  have up: "\<bar>x\<bar> < 2 powi (e + 1)" unfolding e_def by (rule expo_upper)
  have "expo (- 126) 1 = 0" by (rule expo_normal) simp_all
  moreover have "expo (- 126) 1 \<le> expo (- 126) x" using x1 by (intro expo_mono) simp
  ultimately have e0: "0 \<le> e" by (simp add: e_def)
  have "\<bar>x\<bar> < 2 powi 23" using x1 x2 False by simp
  then have "e < 23" unfolding e_def by (rule expo_less) simp
  define d where "d = nat (22 - e)"
  have "- 1 = int d + (e - 23)" using \<open>e < 23\<close> by (simp add: d_def)
  then have "(2::real) powi (- 1) = 2 powi (int d + (e - 23))" by (rule arg_cong)
  also have "\<dots> = 2 ^ d * u" by (simp only: powi_split power_int_of_nat u_def)
  finally have half: "1 / 2 = 2 ^ d * u" by (simp add: power_int_minus)
  have eq: "x - 1/2 = of_int (m - 2 ^ d) * u"
    by (simp add: xm half left_diff_distrib)
  have "\<bar>x - 1/2\<bar> < 2 powi (e + 1)" using up x1 by simp
  also have "\<dots> = 2 ^ 24 * u" by (simp add: u_def power_int_diff power_int_add)
  finally have "\<bar>real_of_int (m - 2 ^ d)\<bar> * u < real_of_int (2 ^ 24) * u"
    using u by (simp add: eq abs_mult)
  then have "\<bar>real_of_int (m - 2 ^ d)\<bar> < real_of_int (2 ^ 24)"
    using u by (simp only: mult_less_cancel_right_pos)
  then have "real_of_int \<bar>m - 2 ^ d\<bar> < real_of_int (2 ^ 24)" by (simp only: of_int_abs)
  then have n: "\<bar>m - 2 ^ d\<bar> < 2 ^ 24" by (simp only: of_int_less_iff)
  show ?thesis
    using eq n e0 unfolding u_def by (intro f32_exact [where n = "m - 2 ^ d" and j = "e - 23"]) simp_all
qed

lemma f32_add_half:
  assumes fx: "f32 x = x" and x1: "x \<le> - 1" and x2: "- (2 ^ 23) \<le> x"
  shows "f32 (x + 1/2) = x + 1/2"
proof -
  have "f32 (- x) = - x" using fx by (simp add: f32_minus)
  then have "f32 (- x - 1/2) = - x - 1/2" using x1 x2 by (intro f32_sub_half) simp_all
  moreover have "f32 (- x - 1/2) = - f32 (x + 1/2)"
    using f32_minus [of "x + 1/2"] by simp
  ultimately show ?thesis by simp
qed


section \<open>Zoom\<close>

text \<open>
  The two limits as binary32 numbers: \<^verbatim>\<open>20.0f\<close> is exact, \<^verbatim>\<open>2.1f\<close> is the nearest
  representable number to 2.1, a little below it.
\<close>

lemma MAX_ZOOM_eq: "MAX_ZOOM = 20"
  by (simp add: MAX_ZOOM_def f32_20)

lemma MIN_ZOOM_eq: "MIN_ZOOM = 4404019 / 2097152"
  unfolding MIN_ZOOM_def by (subst f32_eqI [where k = 1]) (simp_all add: rne_def)

lemma MIN_ZOOM_le_MAX_ZOOM: "MIN_ZOOM \<le> MAX_ZOOM"
  by (simp add: MIN_ZOOM_eq MAX_ZOOM_eq)

lemma handleInput_zoom_ok:
  "zoom_ok (planet s) \<Longrightarrow> zoom_ok (planet (handleInput e ticks s))"
  using MIN_ZOOM_le_MAX_ZOOM
  by (cases e) (auto simp: zoom_ok_def getZoom_def setZoom_def setRotation_def Let_def)

lemma handleInputs_zoom_ok:
  "zoom_ok (planet s) \<Longrightarrow> zoom_ok (planet (handleInputs es s))"
  by (induction es arbitrary: s) (auto simp: handleInput_zoom_ok)

lemma Planet_new_zoom_ok:
  "zoom_ok (Planet_new r atmosphereR texture atmosphereTexture m orbitR orbitS)"
  by (simp add: zoom_ok_def getZoom_def Planet_new_def MIN_ZOOM_eq MAX_ZOOM_eq)

text \<open>
  C1. Whatever events \<^verbatim>\<open>handleInput\<close> processes, wheel events or others, in whatever
  order, starting from a planet as its constructor leaves it (zoom 5.0): after each of them
  the zoom read by \<^verbatim>\<open>getZoom\<close> lies between \<^verbatim>\<open>MIN_ZOOM\<close> (\<^verbatim>\<open>2.1f\<close>) and
  \<^verbatim>\<open>MAX_ZOOM\<close> (\<^verbatim>\<open>20.0f\<close>), both included. The list \<open>es\<close> is any sequence of
  events, so the bound holds after every prefix of a longer sequence.
\<close>

theorem zoom_within_limits:
  "MIN_ZOOM \<le> getZoom (planet (handleInputs es
       (s\<lparr>planet := Planet_new r atmosphereR texture atmosphereTexture m orbitR orbitS\<rparr>)))
   \<and> getZoom (planet (handleInputs es
       (s\<lparr>planet := Planet_new r atmosphereR texture atmosphereTexture m orbitR orbitS\<rparr>)))
     \<le> MAX_ZOOM"
proof -
  have "zoom_ok (planet
      (s\<lparr>planet := Planet_new r atmosphereR texture atmosphereTexture m orbitR orbitS\<rparr>))"
    by (simp add: Planet_new_zoom_ok)
  then have "zoom_ok (planet (handleInputs es
      (s\<lparr>planet := Planet_new r atmosphereR texture atmosphereTexture m orbitR orbitS\<rparr>)))"
    by (rule handleInputs_zoom_ok)
  then show ?thesis unfolding zoom_ok_def .
qed


section \<open>Rendering changes no body\<close>

lemma Moon_render_frame: "fst (Moon_render m g) = m"
  by (simp add: Moon_render_def Let_def)

lemma Moon_render_fst: "Moon_render m g = (m', g') \<Longrightarrow> m' = m"
  using Moon_render_frame [of m g] by simp

lemma Sun_render_frame: "fst (Sun_render s g) = s"
  by (simp add: Sun_render_def Let_def)

lemma Planet_render_frame: "fst (Planet_render p g) = p"
  by (cases "moon p")
    (auto simp: Planet_render_def Let_def split: prod.splits dest: Moon_render_fst)

text \<open>
  C9. For each of the three variants and every state of the body and of the OpenGL
  context, \<^verbatim>\<open>render()\<close> hands the body back with every field as it was (for a planet,
  its moon included): only the OpenGL context changes.
\<close>

theorem render_leaves_body_unchanged: "fst (render b g) = b"
  by (cases b)
    (simp_all add: Sun_render_frame Planet_render_frame Moon_render_frame split: prod.splits,
      (metis fst_conv Sun_render_frame Planet_render_frame Moon_render_frame)+)


section \<open>The atmosphere shell of the planet\<close>

lemma Moon_render_drawn:
  "\<exists>ds. drawn (snd (Moon_render m g)) = drawn g @ ds"
  by (simp add: Moon_render_def Let_def glPushMatrix_def glPopMatrix_def glRotatef_def
      glTranslatef_def glBindTexture_def glColor4f_def gluSphere_def Moon_renderSphere_def)

lemma glPopMatrix_drawn: "drawn (glPopMatrix g) = drawn g"
  by (simp add: glPopMatrix_def split: list.splits)

lemma Planet_render_shell:
  "atmosphere_shell p g =
     \<lparr>sphere_xform = user_frame p g @
        [Rotate (rotationY p) 0 1 0, Rotate (f32 (rotationY p + 5)) 0 1 0, Rotate 90 1 0 0],
      sphere_texture = atmosphereTextureID p,
      sphere_color = (1, 1, 1, 1/2),
      sphere_radius = atmosphereRadius p,
      sphere_slices = 40, sphere_stacks = 40\<rparr>"
proof (cases "moon p")
  case None
  then show ?thesis
    by (simp add: atmosphere_shell_def user_frame_def Planet_render_def Planet_renderSphere_def
        Let_def glPushMatrix_def glPopMatrix_def glRotatef_def
        glTranslatef_def glBindTexture_def glColor4f_def gluSphere_def nth_append)
next
  case (Some m)
  define g1 where "g1 = glPopMatrix (glColor4f 1 1 1 1
      (Planet_renderSphere (atmosphereRadius p) 40 40
      (glColor4f 1 1 1 (1 / 2) (glBindTexture (atmosphereTextureID p)
      (glRotatef (f32 (rotationY p + 5)) 0 1 0 (glPushMatrix
      (Planet_renderSphere (radius p) 40 40 (glBindTexture (textureID p)
      (glRotatef (rotationY p) 0 1 0 (glRotatef (userRotationY p) 0 1 0
      (glRotatef (userRotationX p) 1 0 0 (glTranslatef (positionX p) 0 (positionZ p)
      (glPushMatrix g)))))))))))))"
  obtain ds where ds: "drawn (snd (Moon_render m g1)) = drawn g1 @ ds"
    using Moon_render_drawn by blast
  have r: "snd (Planet_render p g) = glPopMatrix (snd (Moon_render m g1))"
    by (simp add: Planet_render_def Let_def Some g1_def split: prod.splits)
  have d1: "drawn g1 = drawn g @
     [\<lparr>sphere_xform = user_frame p g @ [Rotate (rotationY p) 0 1 0, Rotate 90 1 0 0],
       sphere_texture = textureID p, sphere_color = current_color g,
       sphere_radius = radius p, sphere_slices = 40, sphere_stacks = 40\<rparr>,
      \<lparr>sphere_xform = user_frame p g @
        [Rotate (rotationY p) 0 1 0, Rotate (f32 (rotationY p + 5)) 0 1 0, Rotate 90 1 0 0],
      sphere_texture = atmosphereTextureID p,
      sphere_color = (1, 1, 1, 1/2),
      sphere_radius = atmosphereRadius p,
      sphere_slices = 40, sphere_stacks = 40\<rparr>]"
    by (simp add: g1_def user_frame_def Planet_renderSphere_def
        Let_def glPushMatrix_def glPopMatrix_def glRotatef_def
        glTranslatef_def glBindTexture_def glColor4f_def gluSphere_def)
  show ?thesis
    unfolding atmosphere_shell_def r glPopMatrix_drawn ds d1
    by (simp add: nth_append)
qed

text \<open>Two rotations about the vertical axis, one after the other, add their angles.\<close>

lemma rotate_y: "apply_xform (Rotate deg 0 1 0) (a, b, c) =
   (cos (deg * pi / 180) * a + sin (deg * pi / 180) * c, b,
    cos (deg * pi / 180) * c - sin (deg * pi / 180) * a)"
  by (simp add: Let_def algebra_simps)

lemma rotate_y_twice:
  "apply_xforms [Rotate a 0 1 0, Rotate b 0 1 0] = apply_xforms [Rotate (a + b) 0 1 0]"
proof
  fix v :: vec3
  obtain x y z where v: "v = (x, y, z)" by (cases v)
  define A where "A = a * pi / 180"
  define B where "B = b * pi / 180"
  have ab: "(a + b) * pi / 180 = A + B"
    by (simp add: A_def B_def field_simps)
  have two: "apply_xforms [Rotate a 0 1 0, Rotate b 0 1 0] (x, y, z) =
      (cos A * (cos B * x + sin B * z) + sin A * (cos B * z - sin B * x), y,
       cos A * (cos B * z - sin B * x) - sin A * (cos B * x + sin B * z))"
    by (simp only: apply_xforms_def foldr.simps o_apply id_apply rotate_y A_def B_def)
  have one: "apply_xforms [Rotate (a + b) 0 1 0] (x, y, z) =
      (cos (A + B) * x + sin (A + B) * z, y, cos (A + B) * z - sin (A + B) * x)"
    by (simp only: apply_xforms_def foldr.simps o_apply id_apply rotate_y ab)
  show "apply_xforms [Rotate a 0 1 0, Rotate b 0 1 0] v = apply_xforms [Rotate (a + b) 0 1 0] v"
    unfolding v two one by (simp add: cos_add sin_add algebra_simps)
qed

text \<open>
  C6, as the code has it. \<^verbatim>\<open>Planet::render\<close> draws the atmosphere shell (the sphere
  with the atmosphere texture and radius) inside the matrix that already holds the passive
  rotation of the body: on top of the user-rotated frame it applies the rotation by
  \<^verbatim>\<open>rotationY\<close>, then the rotation by \<^verbatim>\<open>rotationY + 5.0f\<close>, then the quarter turn
  of \<^verbatim>\<open>renderSphere\<close>. Seen from the user-rotated frame the shell is therefore turned
  about the vertical axis by the passive spin angle plus (passive spin angle + 5), twice
  the spin plus 5 degrees; it is ahead of the body by spin + 5, not by 5.
\<close>

theorem atmosphere_rotation:
  "sphere_xform (atmosphere_shell p g) = user_frame p g @
      [Rotate (rotationY p) 0 1 0, Rotate (f32 (rotationY p + 5)) 0 1 0] @ [Rotate 90 1 0 0]
   \<and> sphere_texture (atmosphere_shell p g) = atmosphereTextureID p
   \<and> sphere_radius (atmosphere_shell p g) = atmosphereRadius p
   \<and> apply_xforms [Rotate (rotationY p) 0 1 0, Rotate (f32 (rotationY p + 5)) 0 1 0]
       = apply_xforms [Rotate (rotationY p + f32 (rotationY p + 5)) 0 1 0]"
  by (simp add: Planet_render_shell rotate_y_twice)

text \<open>
  The claim as the specification words it fails: for the planet of \<^verbatim>\<open>main\<close> with a
  passive spin of 85 degrees, drawn into a fresh context, the shell is not where a
  rotation by 85 + 5 degrees in the user-rotated frame would put it. The point (1, 0, 0)
  of the sphere lands at a different place.
\<close>

theorem atmosphere_rotation_counterexample:
  "apply_xforms (sphere_xform (atmosphere_shell
       ((main_planet 1 2 (main_moon 3 4))\<lparr>rotationY := 85\<rparr>) GL_init)) (1, 0, 0)
   \<noteq> apply_xforms (user_frame ((main_planet 1 2 (main_moon 3 4))\<lparr>rotationY := 85\<rparr>) GL_init
        @ [Rotate (f32 (85 + 5)) 0 1 0] @ [Rotate 90 1 0 0]) (1, 0, 0)"
proof -
  have "cos (85 * pi / 180) < cos 0"
    by (rule cos_monotone_0_pi) (simp_all add: field_simps)
  then have "cos (85 * pi / 180) \<noteq> 1" by simp
  moreover have "(90::real) * pi / 180 = pi / 2" by simp
  ultimately show ?thesis
    by (simp add: Planet_render_shell user_frame_def GL_init_def main_planet_def Planet_new_def
        apply_xforms_def f32_90 Let_def)
qed


section \<open>Mouse events\<close>

text \<open>
  C10. A mouse-motion event that arrives while \<^verbatim>\<open>dragging\<close> is false leaves the whole
  state as it was: the planet, the accumulated rotations, the last mouse position, the
  time of the last interaction and the \<^verbatim>\<open>running\<close> flag.
\<close>

theorem motion_without_drag_changes_nothing:
  "\<not> dragging s \<Longrightarrow> handleInput (SDL_MOUSEMOTION x y) ticks s = s"
  by simp

theorem motion_without_drag_witness:
  "\<not> dragging (main_state (main_planet 1 2 (main_moon 3 4)))
   \<and> handleInput (SDL_MOUSEMOTION 150 130) 1000 (main_state (main_planet 1 2 (main_moon 3 4)))
     = main_state (main_planet 1 2 (main_moon 3 4))"
  using motion_without_drag_changes_nothing
    [of "main_state (main_planet 1 2 (main_moon 3 4))" 150 130 1000]
  by (simp add: main_state_def)

text \<open>
  C5, as the code has it. Pressing the left button sets \<^verbatim>\<open>dragging\<close> and moves the
  anchor \<^verbatim>\<open>lastMouseX\<close>, \<^verbatim>\<open>lastMouseY\<close> to the position of the event, and changes
  nothing else: the accumulated rotations \<^verbatim>\<open>sphereRotationX\<close>, \<^verbatim>\<open>sphereRotationY\<close>
  and \<^verbatim>\<open>lastInteractionTime\<close> are carried over from the earlier drag sessions.
\<close>

theorem button_down_keeps_accumulated_state:
  "handleInput (SDL_MOUSEBUTTONDOWN SDL_BUTTON_LEFT x y) ticks s
     = s\<lparr>dragging := True, lastMouseX := x, lastMouseY := y\<rparr>"
  by simp

text \<open>
  The claim as the specification words it fails: after a drag that left the accumulated
  rotations at 25 and -15 and the time of the last interaction at 1000, a new press of
  the left button at time 5000 finds all three unchanged, neither back at their initial
  value 0 nor set to the time of the press.
\<close>

theorem button_down_resets_counterexample:
  "sphereRotationY (handleInput (SDL_MOUSEBUTTONDOWN SDL_BUTTON_LEFT 10 10) 5000
      ((main_state (main_planet 1 2 (main_moon 3 4)))
         \<lparr>lastInteractionTime := 1000, sphereRotationY := 25, sphereRotationX := - 15\<rparr>)) = 25
   \<and> sphereRotationX (handleInput (SDL_MOUSEBUTTONDOWN SDL_BUTTON_LEFT 10 10) 5000
      ((main_state (main_planet 1 2 (main_moon 3 4)))
         \<lparr>lastInteractionTime := 1000, sphereRotationY := 25, sphereRotationX := - 15\<rparr>)) = - 15
   \<and> lastInteractionTime (handleInput (SDL_MOUSEBUTTONDOWN SDL_BUTTON_LEFT 10 10) 5000
      ((main_state (main_planet 1 2 (main_moon 3 4)))
         \<lparr>lastInteractionTime := 1000, sphereRotationY := 25, sphereRotationX := - 15\<rparr>)) = 1000"
  by simp


text \<open>
  C7. While dragging with the anchor at (100, 100), a motion event to (150, 130) adds
  dx * 0.5 = 25.0 to \<^verbatim>\<open>sphereRotationY\<close> and subtracts dy * 0.5 = 15.0 from
  \<^verbatim>\<open>sphereRotationX\<close> (both in binary32 arithmetic), clamps the latter to [-40, 40],
  and writes the two results to the planet through \<^verbatim>\<open>setRotation\<close>.
\<close>

theorem drag_100_100_to_150_130:
  assumes "dragging s" "lastMouseX s = 100" "lastMouseY s = 100"
  shows "sphereRotationY (handleInput (SDL_MOUSEMOTION 150 130) ticks s)
           = f32 (sphereRotationY s + 25)
       \<and> sphereRotationX (handleInput (SDL_MOUSEMOTION 150 130) ticks s)
           = (if 40 < f32 (sphereRotationX s - 15) then 40
              else if f32 (sphereRotationX s - 15) < - 40 then - 40
              else f32 (sphereRotationX s - 15))
       \<and> planet (handleInput (SDL_MOUSEMOTION 150 130) ticks s)
           = setRotation (sphereRotationX (handleInput (SDL_MOUSEMOTION 150 130) ticks s))
               (sphereRotationY (handleInput (SDL_MOUSEMOTION 150 130) ticks s)) (planet s)"
  using assms by (simp add: Let_def setRotation_def f32_50 f32_30 f32_25 f32_15)

theorem drag_100_100_to_150_130_witness:
  "dragging (handleInput (SDL_MOUSEBUTTONDOWN SDL_BUTTON_LEFT 100 100) 0
      (main_state (main_planet 1 2 (main_moon 3 4))))
   \<and> sphereRotationY (handleInput (SDL_MOUSEMOTION 150 130) 16
        (handleInput (SDL_MOUSEBUTTONDOWN SDL_BUTTON_LEFT 100 100) 0
          (main_state (main_planet 1 2 (main_moon 3 4))))) = 25
   \<and> sphereRotationX (handleInput (SDL_MOUSEMOTION 150 130) 16
        (handleInput (SDL_MOUSEBUTTONDOWN SDL_BUTTON_LEFT 100 100) 0
          (main_state (main_planet 1 2 (main_moon 3 4))))) = - 15
   \<and> userRotationX (planet (handleInput (SDL_MOUSEMOTION 150 130) 16
        (handleInput (SDL_MOUSEBUTTONDOWN SDL_BUTTON_LEFT 100 100) 0
          (main_state (main_planet 1 2 (main_moon 3 4)))))) = - 15
   \<and> userRotationY (planet (handleInput (SDL_MOUSEMOTION 150 130) 16
        (handleInput (SDL_MOUSEBUTTONDOWN SDL_BUTTON_LEFT 100 100) 0
          (main_state (main_planet 1 2 (main_moon 3 4)))))) = 25"
  using drag_100_100_to_150_130
    [of "handleInput (SDL_MOUSEBUTTONDOWN SDL_BUTTON_LEFT 100 100) 0
          (main_state (main_planet 1 2 (main_moon 3 4)))" 16]
    f32_minus [of 15]
  by (simp add: main_state_def f32_25 f32_15 setRotation_def)


section \<open>Angles that wrap around\<close>

lemma Moon_update_orbitAngle:
  "moon_orbitAngle (Moon_update m) = advance (1/2) (moon_orbitAngle m)"
  by (simp add: Moon_update_def advance_def Let_def)

lemma Planet_update_rotationY:
  "rotationY (Planet_update L t l p) = advance (passiveRotationSpeed p) (rotationY p)"
  by (simp add: Planet_update_def advance_def Let_def)

lemma Planet_update_orbitAngle:
  "orbitAngle (Planet_update L t l p) = advance (orbitSpeed p) (orbitAngle p)"
  by (simp add: Planet_update_def advance_def Let_def)

lemma Planet_update_moon:
  "moon (Planet_update L t l p) = map_option Moon_update (moon p)"
  by (simp add: Planet_update_def Let_def split: option.splits)

lemma Planet_update_speeds:
  "passiveRotationSpeed (Planet_update L t l p) = passiveRotationSpeed p"
  "orbitSpeed (Planet_update L t l p) = orbitSpeed p"
  by (simp_all add: Planet_update_def Let_def)

lemma updates_orbitAngle:
  "orbitAngle (updates L ts p) = (advance (orbitSpeed p) ^^ length ts) (orbitAngle p)"
  by (induction ts arbitrary: p)
    (auto simp: Planet_update_orbitAngle Planet_update_speeds funpow_swap1)

text \<open>
  One subtraction of 360 brings the angle back below 360 as long as the speed is not
  negative and below 360 degrees a tick, whatever the rounding does.
\<close>

lemma wraps_angle_ok: "wraps s a \<Longrightarrow> angle_ok a"
  by (auto simp: wraps_def angle_ok_def)

lemma wraps_advance:
  assumes "wraps s a"
  shows "wraps s (advance s a)"
proof (cases "s = 360")
  case True
  with assms have "a = 0" by (simp add: wraps_def)
  then show ?thesis using True by (simp add: advance_def wraps_def f32_360 f32_0)
next
  case False
  with assms have s: "0 \<le> s" "s < 360" and a: "0 \<le> a" "a \<le> 360 - 1 / 2 ^ 15"
    by (auto simp: wraps_def)
  have lo: "0 \<le> f32 (a + s)"
    using f32_mono [of 0 "a + s"] s a by (simp add: f32_0)
  have hi: "f32 (a + s) \<le> 720 - 1 / 2 ^ 14"
    using s a by (intro f32_below_720) simp
  show ?thesis
  proof (cases "360 \<le> f32 (a + s)")
    case True
    have "0 \<le> f32 (f32 (a + s) - 360)"
      using f32_mono [of 0 "f32 (a + s) - 360"] True by (simp add: f32_0)
    moreover have "f32 (360 - 1 / 2 ^ 14) = 360 - 1 / 2 ^ 14"
      by (rule f32_exact [where n = 5898239 and j = "- 14"]) (simp_all add: power_int_minus)
    then have "f32 (f32 (a + s) - 360) \<le> 360 - 1 / 2 ^ 14"
      using f32_mono [of "f32 (a + s) - 360" "360 - 1 / 2 ^ 14"] hi by simp
    ultimately show ?thesis using True s by (simp add: wraps_def advance_def)
  next
    case False
    then have "f32 (a + s) \<le> 360 - 1 / 2 ^ 15" by (intro f32_below_360) simp
    with lo False s show ?thesis by (simp add: wraps_def advance_def)
  qed
qed

lemma angles_wrap_angles_ok: "angles_wrap p \<Longrightarrow> angles_ok p"
  by (auto simp: angles_wrap_def angles_ok_def wraps_angle_ok split: option.splits)

lemma Planet_update_angles_wrap:
  assumes "angles_wrap p"
  shows "angles_wrap (Planet_update L t l p)"
  using assms
  by (auto simp: angles_wrap_def Planet_update_rotationY Planet_update_orbitAngle
      Planet_update_moon Planet_update_speeds Moon_update_orbitAngle wraps_advance
      split: option.splits)

lemma updates_angles_wrap: "angles_wrap p \<Longrightarrow> angles_wrap (updates L ts p)"
  by (induction ts arbitrary: p) (auto simp: Planet_update_angles_wrap)

text \<open>Event handling touches neither the angles nor the speeds.\<close>

lemma handleInput_angles:
  "rotationY (planet (handleInput e ticks s)) = rotationY (planet s)"
  "orbitAngle (planet (handleInput e ticks s)) = orbitAngle (planet s)"
  "moon (planet (handleInput e ticks s)) = moon (planet s)"
  "passiveRotationSpeed (planet (handleInput e ticks s)) = passiveRotationSpeed (planet s)"
  "orbitSpeed (planet (handleInput e ticks s)) = orbitSpeed (planet s)"
  by (cases e; simp add: Let_def setRotation_def setZoom_def)+

lemma handleInputs_angles:
  "rotationY (planet (handleInputs es s)) = rotationY (planet s)"
  "orbitAngle (planet (handleInputs es s)) = orbitAngle (planet s)"
  "moon (planet (handleInputs es s)) = moon (planet s)"
  "passiveRotationSpeed (planet (handleInputs es s)) = passiveRotationSpeed (planet s)"
  "orbitSpeed (planet (handleInputs es s)) = orbitSpeed (planet s)"
  by (induction es arbitrary: s; auto simp: handleInput_angles)+

lemma frame_angles_wrap:
  assumes "angles_wrap (planet s)"
  shows "angles_wrap (planet (frame L events currentTime s))"
proof -
  have "angles_wrap (planet (handleInputs events s))"
    using assms by (simp add: angles_wrap_def handleInputs_angles)
  then show ?thesis
    by (simp add: frame_def Let_def Planet_update_angles_wrap)
qed

lemma main_loop_angles_wrap:
  "angles_wrap (planet s) \<Longrightarrow> angles_wrap (planet (main_loop L fs s))"
proof (induction fs arbitrary: s)
  case Nil
  then show ?case by simp
next
  case (Cons f fs)
  obtain events currentTime where f: "f = (events, currentTime)" by (cases f)
  show ?case
    using Cons.prems frame_angles_wrap [OF Cons.prems, of L events currentTime]
    by (auto simp: f intro: Cons.IH)
qed

lemma Planet_new_angles_wrap:
  assumes "0 \<le> orbitS" "orbitS \<le> 360"
  shows "angles_wrap (Planet_new r atmosphereR texture atmosphereTexture
        (Some (Moon_new d sz moonTexture moonAtmosphereTexture)) orbitR orbitS)"
  using assms by (auto simp: angles_wrap_def wraps_def Planet_new_def Moon_new_def f32_tenth)

text \<open>
  C2, as the code has it. Start from a planet and its moon as the constructors leave them
  (all three angles 0, passive speed \<^verbatim>\<open>0.1f\<close>; the moon advances by 0.5 a tick),
  with an orbit speed of at least 0 and at most 360 degrees a tick, as is the
  \<^verbatim>\<open>0.1f\<close> that \<^verbatim>\<open>main\<close> passes. After any number of update ticks, whatever the
  clock shows at each, the passive spin angle and the orbit angle of the planet and the
  orbit angle of the moon are at least 0 and below 360. The same holds after any number of
  passes of the loop of \<^verbatim>\<open>main\<close>, whatever events arrive in between.
\<close>

theorem angles_stay_below_360:
  assumes "0 \<le> orbitS" and "orbitS \<le> 360"
  shows "angles_ok (updates L ts
     (Planet_new r atmosphereR texture atmosphereTexture
        (Some (Moon_new d sz moonTexture moonAtmosphereTexture)) orbitR orbitS))
   \<and> angles_ok (planet (main_loop L fs
     (main_state (Planet_new r atmosphereR texture atmosphereTexture
        (Some (Moon_new d sz moonTexture moonAtmosphereTexture)) orbitR orbitS))))"
proof
  show "angles_ok (updates L ts
     (Planet_new r atmosphereR texture atmosphereTexture
        (Some (Moon_new d sz moonTexture moonAtmosphereTexture)) orbitR orbitS))"
    using assms by (intro angles_wrap_angles_ok updates_angles_wrap Planet_new_angles_wrap)
  show "angles_ok (planet (main_loop L fs
     (main_state (Planet_new r atmosphereR texture atmosphereTexture
        (Some (Moon_new d sz moonTexture moonAtmosphereTexture)) orbitR orbitS))))"
    using assms
    by (intro angles_wrap_angles_ok main_loop_angles_wrap)
      (simp add: main_state_def Planet_new_angles_wrap)
qed

theorem angles_stay_below_360_witness:
  "0 \<le> f32 (1/10) \<and> f32 (1/10) \<le> 360
   \<and> angles_ok (updates libm_rounded (replicate 3600 (0, 0)) (main_planet 1 2 (main_moon 3 4)))
   \<and> angles_ok (planet (main_loop libm_rounded [([(SDL_MOUSEWHEEL 1, 0)], 16), ([], 33)]
        (main_state (main_planet 1 2 (main_moon 3 4)))))"
  using angles_stay_below_360 [where orbitS = "f32 (1/10)" and L = libm_rounded
      and ts = "replicate 3600 (0, 0)" and r = 1 and atmosphereR = "f32 (105/100)"
      and texture = 1 and atmosphereTexture = 2 and d = 5 and sz = "f32 (27/100)"
      and moonTexture = 3 and moonAtmosphereTexture = 4 and orbitR = 20
      and fs = "[([(SDL_MOUSEWHEEL 1, 0)], 16), ([], 33)]"]
  by (simp add: main_planet_def main_moon_def f32_tenth)

text \<open>At the orbit speed 361 the orbit angle climbs by 1 a tick, up to 360.\<close>

lemma advance_361: "n \<le> 360 \<Longrightarrow> (advance 361 ^^ n) 0 = real n"
proof (induction n)
  case 0
  then show ?case by simp
next
  case (Suc n)
  have "f32 (of_int (int n + 361)) = of_int (int n + 361)"
    using Suc.prems by (intro f32_int) simp
  then have a: "f32 (real n + 361) = real n + 361" by simp
  have "f32 (of_int (int n + 1)) = of_int (int n + 1)"
    using Suc.prems by (intro f32_int) simp
  then have b: "f32 (1 + real n) = 1 + real n" by (simp add: add.commute)
  show ?case using Suc by (simp add: advance_def a b)
qed

text \<open>
  The claim as the specification words it puts no condition on the orbit speed, and the
  constructor takes any; \<^verbatim>\<open>Planet::update\<close> subtracts 360 at most once a tick.
  With the orbit speed 1000 the orbit angle is 640 after the first tick, with the orbit
  speed -1 it is -1, and with the orbit speed 361 it climbs by 1 a tick and is 360 after
  360 ticks.
\<close>

theorem angles_leave_range_counterexample:
  "orbitAngle (updates libm_rounded [(0, 0)]
      (Planet_new 1 (f32 (105/100)) 1 2 (Some (main_moon 3 4)) 20 1000)) = 640
   \<and> \<not> angles_ok (updates libm_rounded [(0, 0)]
      (Planet_new 1 (f32 (105/100)) 1 2 (Some (main_moon 3 4)) 20 1000))
   \<and> orbitAngle (updates libm_rounded [(0, 0)]
      (Planet_new 1 (f32 (105/100)) 1 2 (Some (main_moon 3 4)) 20 (- 1))) = - 1
   \<and> \<not> angles_ok (updates libm_rounded [(0, 0)]
      (Planet_new 1 (f32 (105/100)) 1 2 (Some (main_moon 3 4)) 20 (- 1)))
   \<and> orbitAngle (updates libm_rounded (replicate 360 (0, 0))
      (Planet_new 1 (f32 (105/100)) 1 2 (Some (main_moon 3 4)) 20 361)) = 360
   \<and> \<not> angles_ok (updates libm_rounded (replicate 360 (0, 0))
      (Planet_new 1 (f32 (105/100)) 1 2 (Some (main_moon 3 4)) 20 361))"
proof -
  have a: "f32 1000 = 1000" using f32_int [of 1000] by simp
  have b: "f32 640 = 640" using f32_int [of 640] by simp
  have c: "f32 (- 1) = - 1" using f32_int [of "- 1"] by simp
  have d: "orbitAngle (updates libm_rounded (replicate 360 (0, 0))
      (Planet_new 1 (f32 (105/100)) 1 2 (Some (main_moon 3 4)) 20 361)) = 360"
    using advance_361 [of 360] by (simp add: updates_orbitAngle Planet_new_def)
  have e: "\<not> angles_ok (updates libm_rounded (replicate 360 (0, 0))
      (Planet_new 1 (f32 (105/100)) 1 2 (Some (main_moon 3 4)) 20 361))"
    unfolding angles_ok_def d by (simp add: angle_ok_def)
  have "orbitAngle (updates libm_rounded [(0, 0)]
      (Planet_new 1 (f32 (105/100)) 1 2 (Some (main_moon 3 4)) 20 1000)) = 640
   \<and> \<not> angles_ok (updates libm_rounded [(0, 0)]
      (Planet_new 1 (f32 (105/100)) 1 2 (Some (main_moon 3 4)) 20 1000))
   \<and> orbitAngle (updates libm_rounded [(0, 0)]
      (Planet_new 1 (f32 (105/100)) 1 2 (Some (main_moon 3 4)) 20 (- 1))) = - 1
   \<and> \<not> angles_ok (updates libm_rounded [(0, 0)]
      (Planet_new 1 (f32 (105/100)) 1 2 (Some (main_moon 3 4)) 20 (- 1)))"
    by (simp add: Planet_update_orbitAngle angles_ok_def angle_ok_def advance_def
        Planet_new_def a b c)
  with d e show ?thesis by blast
qed


section \<open>The orbit angle after 3600 ticks\<close>

text \<open>
  Adding \<^verbatim>\<open>0.1f\<close> to a binary32 number between two consecutive powers of two
  \<open>2 powi k\<close> and \<open>2 powi (k + 1)\<close> moves it by a whole number of units in the last
  place, the same number at each step; \<open>advance_run\<close> follows \<open>n\<close> such steps at once,
  \<open>advance_tick\<close> a single step that crosses into the next binade.
\<close>


lemma funpow_join:
  assumes "N = n + 1 + m" "(f ^^ m) x = v0" "f v0 = v1" "(f ^^ n) v1 = v"
  shows "(f ^^ N) x = v"
proof -
  have "N = n + Suc m" using assms(1) by simp
  then have "(f ^^ N) x = (f ^^ n) ((f ^^ Suc m) x)"
    by (simp only: funpow_add o_apply)
  also have "\<dots> = (f ^^ n) (f ((f ^^ m) x))" by simp
  finally show ?thesis by (simp only: assms)
qed

lemma advance_tick:
  assumes "- 126 \<le> k" "2 powi k \<le> a + s" "a + s < 2 powi (k + 1)"
    and "of_int (rne ((a + s) / 2 powi (k - 23))) * 2 powi (k - 23) = b" "b < 360"
  shows "advance s a = b"
proof -
  have "0 \<le> a + s" using assms(2) powi_pos [of k] by linarith
  then have "f32 (a + s) = b"
    using assms by (subst f32_eqI [where k = k]) simp_all
  with assms(5) show ?thesis by (simp add: advance_def)
qed

lemma advance_run:
  assumes k: "- 126 \<le> k"
    and notie: "s / 2 powi (k - 23) - of_int \<lfloor>s / 2 powi (k - 23)\<rfloor> \<noteq> 1/2"
    and d: "rne (s / 2 powi (k - 23)) = d" "0 \<le> d"
    and lo: "2 powi k \<le> of_int m * 2 powi (k - 23) + s"
    and hi: "of_int (m + (int n - 1) * d) * 2 powi (k - 23) + s < 2 powi (k + 1)"
    and below: "(of_int (m + int n * d) * 2 powi (k - 23) :: real) < 360"
  shows "(advance s ^^ n) (of_int m * 2 powi (k - 23)) = of_int (m + int n * d) * 2 powi (k - 23)"
  using lo hi below
proof (induction n arbitrary: m)
  case 0
  then show ?case by simp
next
  case (Suc n)
  define u where "u = (2::real) powi (k - 23)"
  have u: "0 < u" by (simp add: u_def)
  have dn: "0 \<le> of_int (int n * d) * u" using d(2) u by simp
  have "of_int m * u + s \<le> of_int (m + (int (Suc n) - 1) * d) * u + s"
    using dn by (simp add: algebra_simps)
  with Suc.prems(2) have hi1: "of_int m * u + s < 2 powi (k + 1)"
    unfolding u_def by linarith
  have "(of_int m * u + s) / u = of_int m + s / u"
    using u by (simp add: field_simps)
  then have "rne ((of_int m * u + s) / u) = m + d"
    using notie d(1) by (simp add: rne_add_int u_def)
  then have eq: "of_int (rne ((of_int m * u + s) / u)) * u = of_int (m + d) * u"
    by simp
  have "of_int (m + d) * u \<le> of_int (m + int (Suc n) * d) * u"
    using dn by (simp add: algebra_simps)
  with Suc.prems(3) have "of_int (m + d) * u < 360" unfolding u_def by linarith
  then have step: "advance s (of_int m * u) = of_int (m + d) * u"
    using k Suc.prems(1) hi1 eq unfolding u_def by (intro advance_tick [where k = k]) simp_all
  have "(advance s ^^ n) (of_int (m + d) * u) = of_int (m + d + int n * d) * u"
    unfolding u_def
  proof (rule Suc.IH)
    have "of_int m * u \<le> of_int (m + d) * u" using d(2) u by (simp add: algebra_simps)
    with Suc.prems(1) show "2 powi k \<le> of_int (m + d) * 2 powi (k - 23) + s"
      unfolding u_def by linarith
    show "of_int (m + d + (int n - 1) * d) * 2 powi (k - 23) + s < 2 powi (k + 1)"
      using Suc.prems(2) by (simp add: algebra_simps)
    show "(of_int (m + d + int n * d) * 2 powi (k - 23) :: real) < 360"
      using Suc.prems(3) by (simp add: algebra_simps)
  qed
  moreover have "m + d + int n * d = m + int (Suc n) * d"
    by (simp add: algebra_simps)
  moreover have "(advance s ^^ Suc n) (of_int m * u) = (advance s ^^ n) (advance s (of_int m * u))"
    by (simp add: funpow_swap1)
  ultimately show ?case
    unfolding u_def by (simp only: step [unfolded u_def])
qed

text \<open>
  The orbit angle from 0 with speed \<^verbatim>\<open>0.1f\<close> = 13421773 / 134217728, binade by
  binade: after the tick named in each lemma the angle is the number given. It first
  reaches 360 at tick 3600.
\<close>

lemma orbit_tick_1: "(advance (13421773 / 134217728) ^^ 1) 0 = 13421773 / 134217728"
proof -
  have p: "(advance (13421773 / 134217728) ^^ 0) 0 = 0" by simp
  have t: "advance (13421773 / 134217728) (0) = 13421773 / 134217728"
    by (rule advance_tick [where k = "-4"]) (simp_all add: rne_def)
  have r: "(advance (13421773 / 134217728) ^^ 0) (13421773 / 134217728) = 13421773 / 134217728"
    by simp
  show ?thesis by (rule funpow_join [OF _ p t r]) simp
qed

lemma orbit_tick_2: "(advance (13421773 / 134217728) ^^ 2) 0 = 13421773 / 67108864"
proof -
  have t: "advance (13421773 / 134217728) (13421773 / 134217728) = 13421773 / 67108864"
    by (rule advance_tick [where k = "-3"]) (simp_all add: rne_def)
  have r: "(advance (13421773 / 134217728) ^^ 0) (13421773 / 67108864) = 13421773 / 67108864"
    by simp
  show ?thesis by (rule funpow_join [OF _ orbit_tick_1 t r]) simp
qed

lemma orbit_tick_4: "(advance (13421773 / 134217728) ^^ 4) 0 = 13421773 / 33554432"
proof -
  have t: "advance (13421773 / 134217728) (13421773 / 67108864) = 5033165 / 16777216"
    by (rule advance_tick [where k = "-2"]) (simp_all add: rne_def)
  have r: "(advance (13421773 / 134217728) ^^ 1) (5033165 / 16777216) = 13421773 / 33554432"
    using advance_run [where k = "-2" and d = 3355443 and m = 10066330 and n = 1 and s = "13421773 / 134217728"]
    by (simp add: rne_def)
  show ?thesis by (rule funpow_join [OF _ orbit_tick_2 t r]) simp
qed

lemma orbit_tick_9: "(advance (13421773 / 134217728) ^^ 9) 0 = 1887437 / 2097152"
proof -
  have t: "advance (13421773 / 134217728) (13421773 / 33554432) = 1 / 2"
    by (rule advance_tick [where k = "-1"]) (simp_all add: rne_def)
  have r: "(advance (13421773 / 134217728) ^^ 4) (1 / 2) = 1887437 / 2097152"
    using advance_run [where k = "-1" and d = 1677722 and m = 8388608 and n = 4 and s = "13421773 / 134217728"]
    by (simp add: rne_def)
  show ?thesis by (rule funpow_join [OF _ orbit_tick_4 t r]) simp
qed

lemma orbit_tick_19: "(advance (13421773 / 134217728) ^^ 19) 0 = 7969179 / 4194304"
proof -
  have t: "advance (13421773 / 134217728) (1887437 / 2097152) = 8388609 / 8388608"
    by (rule advance_tick [where k = "0"]) (simp_all add: rne_def)
  have r: "(advance (13421773 / 134217728) ^^ 9) (8388609 / 8388608) = 7969179 / 4194304"
    using advance_run [where k = "0" and d = 838861 and m = 8388609 and n = 9 and s = "13421773 / 134217728"]
    by (simp add: rne_def)
  show ?thesis by (rule funpow_join [OF _ orbit_tick_9 t r]) simp
qed

lemma orbit_tick_40: "(advance (13421773 / 134217728) ^^ 40) 0 = 16777209 / 4194304"
proof -
  have t: "advance (13421773 / 134217728) (7969179 / 4194304) = 8388609 / 4194304"
    by (rule advance_tick [where k = "1"]) (simp_all add: rne_def)
  have r: "(advance (13421773 / 134217728) ^^ 20) (8388609 / 4194304) = 16777209 / 4194304"
    using advance_run [where k = "1" and d = 419430 and m = 8388609 and n = 20 and s = "13421773 / 134217728"]
    by (simp add: rne_def)
  show ?thesis by (rule funpow_join [OF _ orbit_tick_19 t r]) simp
qed

lemma orbit_tick_80: "(advance (13421773 / 134217728) ^^ 80) 0 = 16777205 / 2097152"
proof -
  have t: "advance (13421773 / 134217728) (16777209 / 4194304) = 537395 / 131072"
    by (rule advance_tick [where k = "2"]) (simp_all add: rne_def)
  have r: "(advance (13421773 / 134217728) ^^ 39) (537395 / 131072) = 16777205 / 2097152"
    using advance_run [where k = "2" and d = 209715 and m = 8598320 and n = 39 and s = "13421773 / 134217728"]
    by (simp add: rne_def)
  show ?thesis by (rule funpow_join [OF _ orbit_tick_40 t r]) simp
qed

lemma orbit_tick_159: "(advance (13421773 / 134217728) ^^ 159) 0 = 130253 / 8192"
proof -
  have t: "advance (13421773 / 134217728) (16777205 / 2097152) = 2123365 / 262144"
    by (rule advance_tick [where k = "3"]) (simp_all add: rne_def)
  have r: "(advance (13421773 / 134217728) ^^ 78) (2123365 / 262144) = 130253 / 8192"
    using advance_run [where k = "3" and d = 104858 and m = 8493460 and n = 78 and s = "13421773 / 134217728"]
    by (simp add: rne_def)
  show ?thesis by (rule funpow_join [OF _ orbit_tick_80 t r]) simp
qed

lemma orbit_tick_319: "(advance (13421773 / 134217728) ^^ 319) 0 = 522651 / 16384"
proof -
  have t: "advance (13421773 / 134217728) (130253 / 8192) = 8388621 / 524288"
    by (rule advance_tick [where k = "4"]) (simp_all add: rne_def)
  have r: "(advance (13421773 / 134217728) ^^ 159) (8388621 / 524288) = 522651 / 16384"
    using advance_run [where k = "4" and d = 52429 and m = 8388621 and n = 159 and s = "13421773 / 134217728"]
    by (simp add: rne_def)
  show ?thesis by (rule funpow_join [OF _ orbit_tick_159 t r]) simp
qed

lemma orbit_tick_640: "(advance (13421773 / 134217728) ^^ 640) 0 = 8388555 / 131072"
proof -
  have t: "advance (13421773 / 134217728) (522651 / 16384) = 4194315 / 131072"
    by (rule advance_tick [where k = "5"]) (simp_all add: rne_def)
  have r: "(advance (13421773 / 134217728) ^^ 320) (4194315 / 131072) = 8388555 / 131072"
    using advance_run [where k = "5" and d = 26214 and m = 8388630 and n = 320 and s = "13421773 / 134217728"]
    by (simp add: rne_def)
  show ?thesis by (rule funpow_join [OF _ orbit_tick_319 t r]) simp
qed

lemma orbit_tick_1280: "(advance (13421773 / 134217728) ^^ 1280) 0 = 16777035 / 131072"
proof -
  have t: "advance (13421773 / 134217728) (8388555 / 131072) = 4200831 / 65536"
    by (rule advance_tick [where k = "6"]) (simp_all add: rne_def)
  have r: "(advance (13421773 / 134217728) ^^ 639) (4200831 / 65536) = 16777035 / 131072"
    using advance_run [where k = "6" and d = 13107 and m = 8401662 and n = 639 and s = "13421773 / 134217728"]
    by (simp add: rne_def)
  show ?thesis by (rule funpow_join [OF _ orbit_tick_640 t r]) simp
qed

lemma orbit_tick_2559: "(advance (13421773 / 134217728) ^^ 2559) 0 = 16771083 / 65536"
proof -
  have t: "advance (13421773 / 134217728) (16777035 / 131072) = 8395071 / 65536"
    by (rule advance_tick [where k = "7"]) (simp_all add: rne_def)
  have r: "(advance (13421773 / 134217728) ^^ 1278) (8395071 / 65536) = 16771083 / 65536"
    using advance_run [where k = "7" and d = 6554 and m = 8395071 and n = 1278 and s = "13421773 / 134217728"]
    by (simp add: rne_def)
  show ?thesis by (rule funpow_join [OF _ orbit_tick_1280 t r]) simp
qed

lemma orbit_tick_3599: "(advance (13421773 / 134217728) ^^ 3599) 0 = 11793621 / 32768"
proof -
  have t: "advance (13421773 / 134217728) (16771083 / 65536) = 4194409 / 16384"
    by (rule advance_tick [where k = "8"]) (simp_all add: rne_def)
  have r: "(advance (13421773 / 134217728) ^^ 1039) (4194409 / 16384) = 11793621 / 32768"
    using advance_run [where k = "8" and d = 3277 and m = 8388818 and n = 1039 and s = "13421773 / 134217728"]
    by (simp add: rne_def)
  show ?thesis by (rule funpow_join [OF _ orbit_tick_2559 t r]) simp
qed

lemma orbit_tick_3600: "(advance (13421773 / 134217728) ^^ 3600) 0 = 209 / 16384"
proof -
  have s: "f32 (11793621 / 32768 + 13421773 / 134217728) = 5898449 / 16384"
    by (subst f32_eqI [where k = "8"]) (simp_all add: rne_def)
  have w: "f32 (209 / 16384) = 209 / 16384"
    by (rule f32_exact [where n = 209 and j = "-14"]) simp_all
  have t: "advance (13421773 / 134217728) (11793621 / 32768) = 209 / 16384"
    unfolding advance_def Let_def s by (simp add: w)
  have r: "(advance (13421773 / 134217728) ^^ 0) (209 / 16384) = 209 / 16384" by simp
  show ?thesis by (rule funpow_join [OF _ orbit_tick_3599 t r]) simp
qed

text \<open>
  C8, as the code has it. With orbit radius 20 and orbit speed \<^verbatim>\<open>0.1f\<close>, after
  exactly 3600 update ticks from the constructor's angle 0 the orbit angle stands at
  209 / 16384 (about 0.0128 degrees), not at 0. One tick earlier it was
  11793621 / 32768 (about 359.9128 degrees), so the 3600th tick is the one that wraps:
  each of the 3600 binary32 additions is rounded, and the increments add up to
  360 + 209 / 16384 instead of 360.
\<close>

theorem orbit_angle_after_3600_ticks:
  assumes "length ts = 3600"
  shows "orbitAngle (updates L (take 3599 ts)
           (Planet_new r atmosphereR texture atmosphereTexture m 20 (f32 (1/10))))
           = 11793621 / 32768
       \<and> orbitAngle (updates L ts
           (Planet_new r atmosphereR texture atmosphereTexture m 20 (f32 (1/10)))) = 209 / 16384"
  using assms
  by (simp add: updates_orbitAngle Planet_new_def f32_tenth orbit_tick_3599 orbit_tick_3600)

theorem orbit_angle_after_3600_ticks_witness:
  "length (replicate 3600 (0 :: Uint32, 0 :: Uint32)) = 3600
   \<and> orbitAngle (updates libm_rounded (replicate 3600 (0, 0))
        (Planet_new 1 (f32 (105/100)) 1 2 (Some (main_moon 3 4)) 20 (f32 (1/10)))) = 209 / 16384"
  using orbit_angle_after_3600_ticks [of "replicate 3600 (0, 0)" libm_rounded
      1 "f32 (105/100)" 1 2 "Some (main_moon 3 4)"]
  by simp

text \<open>
  The claim as the specification words it fails for the planet of \<^verbatim>\<open>main\<close>: after
  3600 ticks its orbit angle differs from the angle it started with.
\<close>

theorem orbit_returns_counterexample:
  "orbitAngle (updates libm_rounded (replicate 3600 (0, 0)) (main_planet 1 2 (main_moon 3 4)))
   \<noteq> orbitAngle (main_planet 1 2 (main_moon 3 4))"
  by (simp add: updates_orbitAngle main_planet_def Planet_new_def f32_tenth orbit_tick_3600)


section \<open>The user rotation about X returns to zero\<close>

lemma Planet_update_userRotationX:
  "userRotationX (Planet_update L t l p) =
     (if RETURN_TO_ORIGINAL_DELAY \<le> t - l \<and> userRotationX p \<noteq> 0
      then
        (let x = (if 0 < userRotationX p then f32 (userRotationX p - 1/2) else userRotationX p);
             x = (if x < 0 then f32 (x + 1/2) else x);
             x = (if \<bar>x\<bar> < 1/2 then 0 else x)
         in x)
      else userRotationX p)"
  by (simp add: Planet_update_def Let_def)

text \<open>
  A rotation strictly between 0 and 1: \<^verbatim>\<open>userRotationX - 0.5f\<close> is either still
  not negative, and then below 0.5, or negative, and then \<^verbatim>\<open>+ 0.5f\<close> brings it back
  to a number that is not negative and below 0.5. A rotation strictly between -1 and
  -1/67108864: \<^verbatim>\<open>userRotationX + 0.5f\<close> is within 0.5 of 0. Each time the last
  \<^verbatim>\<open>if\<close> snaps the rotation to 0.
\<close>

lemma idle_step_small_pos:
  assumes fx: "f32 x = x" and x0: "0 < x" and x1: "x < 1"
  shows "(let y = f32 (x - 1/2); y = (if y < 0 then f32 (y + 1/2) else y)
          in if \<bar>y\<bar> < 1/2 then 0 else y) = 0"
proof (cases "f32 (x - 1/2) < 0")
  case True
  have "x < 1/2"
  proof (rule ccontr)
    assume "\<not> x < 1/2"
    then have "f32 0 \<le> f32 (x - 1/2)" by (intro f32_mono) simp
    with True show False by (simp add: f32_0)
  qed
  then have "f32 x \<le> 1 / 2 - 1 / 2 ^ 25" by (intro f32_below_half) (simp add: fx)
  then have "x - 1/2 \<le> - (1 / 2 ^ 25)" by (simp add: fx)
  then have "f32 (x - 1/2) \<le> f32 (- (1 / 2 ^ 25))" by (rule f32_mono)
  moreover have "f32 (- (1 / 2 ^ 25)) = - (1 / 2 ^ 25)"
    by (rule f32_exact [where n = "- 1" and j = "- 25"]) (simp_all add: power_int_minus)
  ultimately have hi: "f32 (x - 1/2) + 1/2 \<le> 1 / 2 - 1 / 2 ^ 25" by simp
  have "f32 (- (1/2)) \<le> f32 (x - 1/2)" using x0 by (intro f32_mono) simp
  moreover have "f32 (- (1/2)) = - (1/2)"
    by (rule f32_exact [where n = "- 1" and j = "- 1"]) (simp_all add: power_int_minus)
  ultimately have lo: "0 \<le> f32 (x - 1/2) + 1/2" by simp
  have "f32 0 \<le> f32 (f32 (x - 1/2) + 1/2)" using lo by (rule f32_mono)
  moreover have "f32 (f32 (x - 1/2) + 1/2) \<le> f32 (1 / 2 - 1 / 2 ^ 25)" using hi by (rule f32_mono)
  moreover have "f32 (1 / 2 - 1 / 2 ^ 25) = 1 / 2 - 1 / 2 ^ 25"
    by (rule f32_exact [where n = 16777215 and j = "- 25"]) (simp_all add: power_int_minus)
  ultimately have "\<bar>f32 (f32 (x - 1/2) + 1/2)\<bar> < 1/2" by (simp add: f32_0)
  then show ?thesis using True by (simp add: Let_def)
next
  case False
  have "f32 x \<le> 1 - 1 / 2 ^ 24" using x1 by (intro f32_below_1) (simp add: fx)
  then have "x - 1/2 \<le> 1 / 2 - 1 / 2 ^ 24" by (simp add: fx)
  then have "f32 (x - 1/2) \<le> f32 (1 / 2 - 1 / 2 ^ 24)" by (rule f32_mono)
  moreover have "f32 (1 / 2 - 1 / 2 ^ 24) = 1 / 2 - 1 / 2 ^ 24"
    by (rule f32_exact [where n = 8388607 and j = "- 24"]) (simp_all add: power_int_minus)
  ultimately have "\<bar>f32 (x - 1/2)\<bar> < 1/2" using False by simp
  then show ?thesis using False by (simp add: Let_def)
qed

lemma idle_step_small_neg:
  assumes fx: "f32 x = x" and x0: "x < - (1 / 2 ^ 26)" and x1: "- 1 < x"
  shows "\<bar>f32 (x + 1/2)\<bar> < 1/2"
proof -
  have "f32 (x + 1/2) \<le> 1 / 2 - 1 / 2 ^ 25" using x0 by (intro f32_below_half_mid) simp
  moreover have "f32 (- x) = - x" using fx by (simp add: f32_minus)
  then have "f32 (- x) \<le> 1 - 1 / 2 ^ 24" using x1 by (intro f32_below_1) simp
  then have "- x \<le> 1 - 1 / 2 ^ 24" using fx by (simp add: f32_minus)
  then have "- (1 / 2 - 1 / 2 ^ 24) \<le> x + 1/2" by simp
  then have "f32 (- (1 / 2 - 1 / 2 ^ 24)) \<le> f32 (x + 1/2)" by (rule f32_mono)
  moreover have "f32 (1 / 2 - 1 / 2 ^ 24) = 1 / 2 - 1 / 2 ^ 24"
    by (rule f32_exact [where n = 8388607 and j = "- 24"]) (simp_all add: power_int_minus)
  then have "f32 (- (1 / 2 - 1 / 2 ^ 24)) = - (1 / 2 - 1 / 2 ^ 24)"
    by (simp only: f32_minus)
  ultimately show ?thesis by simp
qed

lemma idle_update_step:
  assumes d: "decays (userRotationX p)" and idle: "RETURN_TO_ORIGINAL_DELAY \<le> t - l"
  shows "userRotationX (Planet_update L t l p) = decay (userRotationX p)"
proof -
  define x where "x = userRotationX p"
  have fx: "f32 x = x" and lo: "- (2 ^ 23) \<le> x" and hi: "x \<le> 2 ^ 23"
    and ng: "0 \<le> x \<or> x < - (1 / 2 ^ 26)"
    using d by (simp_all add: decays_def x_def)
  consider "x = 0" | "1 \<le> x" | "0 < x" "x < 1" | "x \<le> - 1" | "- 1 < x" "x < 0"
    by linarith
  then have "userRotationX (Planet_update L t l p) = decay x"
  proof cases
    case 1
    then show ?thesis by (simp add: Planet_update_userRotationX x_def [symmetric] decay_def)
  next
    case 2
    have "f32 (x - 1/2) = x - 1/2" using fx 2 hi by (rule f32_sub_half)
    then show ?thesis
      using 2 idle by (simp add: Planet_update_userRotationX x_def [symmetric] decay_def Let_def)
  next
    case 3
    then show ?thesis
      using idle idle_step_small_pos [OF fx 3]
      by (simp add: Planet_update_userRotationX x_def [symmetric] decay_def)
  next
    case 4
    have "f32 (x + 1/2) = x + 1/2" using fx 4 lo by (rule f32_add_half)
    then show ?thesis
      using 4 idle by (simp add: Planet_update_userRotationX x_def [symmetric] decay_def Let_def)
  next
    case 5
    then have "x < - (1 / 2 ^ 26)" using ng by simp
    then have "\<bar>f32 (x + 1/2)\<bar> < 1/2" using fx 5(1) by (intro idle_step_small_neg)
    then show ?thesis
      using 5 idle by (simp add: Planet_update_userRotationX x_def [symmetric] decay_def Let_def)
  qed
  then show ?thesis by (simp add: x_def)
qed

lemma decays_decay:
  assumes "decays x" shows "decays (decay x)"
proof -
  have fx: "f32 x = x" and lo: "- (2 ^ 23) \<le> x" and hi: "x \<le> 2 ^ 23"
    using assms by (simp_all add: decays_def)
  consider "\<bar>x\<bar> < 1" | "1 \<le> x" | "x \<le> - 1" by linarith
  then show ?thesis
  proof cases
    case 1
    then show ?thesis by (simp add: decay_def decays_def f32_0)
  next
    case 2
    have "f32 (x - 1/2) = x - 1/2" using fx 2 hi by (rule f32_sub_half)
    then show ?thesis using 2 hi by (simp add: decay_def decays_def)
  next
    case 3
    have "f32 (x + 1/2) = x + 1/2" using fx 3 lo by (rule f32_add_half)
    then show ?thesis using 3 lo by (simp add: decay_def decays_def)
  qed
qed

lemma decay_closed:
  "(if n = 0 \<or> 1/2 \<le> \<bar>decay x\<bar> - real n / 2 then decay x - sgn (decay x) * (real n / 2) else 0)
   = (if 1/2 \<le> \<bar>x\<bar> - real (Suc n) / 2 then x - sgn x * (real (Suc n) / 2) else 0)"
  by (auto simp: decay_def sgn_if field_simps)

lemma idle_decay_closed_form:
  assumes "decays (userRotationX p)"
    and "\<forall>(t, l) \<in> set ts. RETURN_TO_ORIGINAL_DELAY \<le> t - l"
  shows "userRotationX (updates L ts p) =
     (if length ts = 0 \<or> 1/2 \<le> \<bar>userRotationX p\<bar> - real (length ts) / 2
      then userRotationX p - sgn (userRotationX p) * (real (length ts) / 2) else 0)"
  using assms
proof (induction ts arbitrary: p)
  case Nil
  then show ?case by simp
next
  case (Cons a ts)
  obtain t l where a: "a = (t, l)" by (cases a)
  have step: "userRotationX (Planet_update L t l p) = decay (userRotationX p)"
    using Cons.prems a by (intro idle_update_step) auto
  have "decays (userRotationX (Planet_update L t l p))"
    unfolding step using Cons.prems(1) by (rule decays_decay)
  then have "userRotationX (updates L ts (Planet_update L t l p)) =
     (if length ts = 0 \<or> 1/2 \<le> \<bar>userRotationX (Planet_update L t l p)\<bar> - real (length ts) / 2
      then userRotationX (Planet_update L t l p)
        - sgn (userRotationX (Planet_update L t l p)) * (real (length ts) / 2) else 0)"
    using Cons.prems(2) by (intro Cons.IH) auto
  then show ?case
    unfolding step decay_closed by (simp add: a)
qed

lemma closed_form_mono:
  fixes x :: real
  assumes "m \<le> n"
  shows "\<bar>if n = 0 \<or> 1/2 \<le> \<bar>x\<bar> - real n / 2 then x - sgn x * (real n / 2) else 0\<bar>
       \<le> \<bar>if m = 0 \<or> 1/2 \<le> \<bar>x\<bar> - real m / 2 then x - sgn x * (real m / 2) else 0\<bar>"
  using assms by (auto simp: sgn_if field_simps)

lemma closed_form_sign:
  fixes x :: real
  shows "0 \<le> (if n = 0 \<or> 1/2 \<le> \<bar>x\<bar> - real n / 2 then x - sgn x * (real n / 2) else 0) * x"
  by (auto simp: sgn_if zero_le_mult_iff field_simps)

lemma closed_form_zero:
  fixes x :: real
  assumes "2 * \<bar>x\<bar> \<le> real n"
  shows "(if n = 0 \<or> 1/2 \<le> \<bar>x\<bar> - real n / 2 then x - sgn x * (real n / 2) else 0) = 0"
  using assms by (auto simp: sgn_if)

lemma idle_5000: "RETURN_TO_ORIGINAL_DELAY \<le> 5000 - 0"
  by (simp add: RETURN_TO_ORIGINAL_DELAY_def)

lemma f32_41_4: "f32 (41 / 4) = 41 / 4"
  by (rule f32_exact [where n = 41 and j = "- 2"]) (simp_all add: power_int_minus)

lemma f32_3_4: "f32 (- (3 / 4)) = - (3 / 4)"
  by (rule f32_exact [where n = "- 3" and j = "- 2"]) (simp_all add: power_int_minus)

text \<open>
  C3, as the code has it. Let the user rotation about X be a binary32 number \<open>x\<close> of
  magnitude at most 8388608 (two to the 23) that is not a negative number of magnitude
  1/67108864 (two to the -26) or less. Over any number of update ticks at each of which
  the clock is at least 2000 ms past the last interaction (difference taken in
  \<^verbatim>\<open>Uint32\<close>), each tick takes exactly 0.5 off the magnitude as long as the magnitude
  is at least 1, and sets the rotation to exactly 0 otherwise, that is as soon as taking
  0.5 off lands within 0.5 of 0; there it stays. After \<open>n > 0\<close> ticks the rotation is
  \<open>x - sgn x * n / 2\<close> if that is still at least 0.5 in magnitude, and 0 if not. So the
  magnitude after the ticks is at most what it was after any first \<open>k\<close> of them, the sign
  never flips, and the rotation is exactly 0 once the number of ticks is at least twice
  the magnitude of \<open>x\<close>.
\<close>

theorem idle_decay_reaches_zero:
  assumes "userRotationX p = x" and "f32 x = x"
    and "- (2 ^ 23) \<le> x" and "x \<le> 2 ^ 23" and "0 \<le> x \<or> x < - (1 / 2 ^ 26)"
    and "\<forall>(t, l) \<in> set ts. RETURN_TO_ORIGINAL_DELAY \<le> t - l"
  shows "userRotationX (updates L ts p) =
           (if length ts = 0 \<or> 1/2 \<le> \<bar>x\<bar> - real (length ts) / 2
            then x - sgn x * (real (length ts) / 2) else 0)
       \<and> \<bar>userRotationX (updates L ts p)\<bar> \<le> \<bar>userRotationX (updates L (take n ts) p)\<bar>
       \<and> 0 \<le> userRotationX (updates L ts p) * x
       \<and> (2 * \<bar>x\<bar> \<le> real (length ts) \<longrightarrow> userRotationX (updates L ts p) = 0)"
proof -
  have d: "decays (userRotationX p)" using assms(1-5) by (simp add: decays_def)
  have eq: "userRotationX (updates L ts p) =
           (if length ts = 0 \<or> 1/2 \<le> \<bar>x\<bar> - real (length ts) / 2
            then x - sgn x * (real (length ts) / 2) else 0)"
    using idle_decay_closed_form [OF d assms(6), of L] by (simp only: assms(1))
  have "\<forall>(t, l) \<in> set (take n ts). RETURN_TO_ORIGINAL_DELAY \<le> t - l"
    using assms(6) by (auto dest: in_set_takeD)
  then have eq': "userRotationX (updates L (take n ts) p) =
           (if length (take n ts) = 0 \<or> 1/2 \<le> \<bar>x\<bar> - real (length (take n ts)) / 2
            then x - sgn x * (real (length (take n ts)) / 2) else 0)"
    using idle_decay_closed_form [OF d, of "take n ts" L] by (simp only: assms(1))
  have "length (take n ts) \<le> length ts" by simp
  then have a: "\<bar>userRotationX (updates L ts p)\<bar> \<le> \<bar>userRotationX (updates L (take n ts) p)\<bar>"
    unfolding eq eq' by (rule closed_form_mono)
  have b: "0 \<le> userRotationX (updates L ts p) * x"
    unfolding eq by (rule closed_form_sign)
  have c: "userRotationX (updates L ts p) = 0" if "2 * \<bar>x\<bar> \<le> real (length ts)"
    unfolding eq using that by (rule closed_form_zero)
  show ?thesis using eq a b c by blast
qed

theorem idle_decay_witness:
  "userRotationX ((main_planet 1 2 (main_moon 3 4))\<lparr>userRotationX := 41 / 4\<rparr>) = 41 / 4
   \<and> f32 (41 / 4) = 41 / 4
   \<and> userRotationX (updates libm_rounded (replicate 1 (5000, 0))
        ((main_planet 1 2 (main_moon 3 4))\<lparr>userRotationX := 41 / 4\<rparr>)) = 39 / 4
   \<and> userRotationX (updates libm_rounded (replicate 19 (5000, 0))
        ((main_planet 1 2 (main_moon 3 4))\<lparr>userRotationX := 41 / 4\<rparr>)) = 3 / 4
   \<and> userRotationX (updates libm_rounded (replicate 20 (5000, 0))
        ((main_planet 1 2 (main_moon 3 4))\<lparr>userRotationX := 41 / 4\<rparr>)) = 0
   \<and> userRotationX (updates libm_rounded (replicate 21 (5000, 0))
        ((main_planet 1 2 (main_moon 3 4))\<lparr>userRotationX := 41 / 4\<rparr>)) = 0
   \<and> f32 (- (3 / 4)) = - (3 / 4)
   \<and> userRotationX (updates libm_rounded (replicate 1 (5000, 0))
        ((main_planet 1 2 (main_moon 3 4))\<lparr>userRotationX := - (3 / 4)\<rparr>)) = 0"
  using idle_decay_reaches_zero [of "(main_planet 1 2 (main_moon 3 4))\<lparr>userRotationX := 41 / 4\<rparr>"
      "41 / 4" "replicate 1 (5000, 0)" libm_rounded 0]
    idle_decay_reaches_zero [of "(main_planet 1 2 (main_moon 3 4))\<lparr>userRotationX := 41 / 4\<rparr>"
      "41 / 4" "replicate 19 (5000, 0)" libm_rounded 0]
    idle_decay_reaches_zero [of "(main_planet 1 2 (main_moon 3 4))\<lparr>userRotationX := 41 / 4\<rparr>"
      "41 / 4" "replicate 20 (5000, 0)" libm_rounded 0]
    idle_decay_reaches_zero [of "(main_planet 1 2 (main_moon 3 4))\<lparr>userRotationX := 41 / 4\<rparr>"
      "41 / 4" "replicate 21 (5000, 0)" libm_rounded 0]
    idle_decay_reaches_zero [of "(main_planet 1 2 (main_moon 3 4))\<lparr>userRotationX := - (3 / 4)\<rparr>"
      "- (3 / 4)" "replicate 1 (5000, 0)" libm_rounded 0]
    idle_5000 f32_41_4 f32_3_4
  by simp

text \<open>
  The claim as the specification words it, for every starting value, fails in binary32
  arithmetic on both sides of that range. At 8388610 the difference
  \<^verbatim>\<open>userRotationX - 0.5f\<close> rounds back to 8388610, so an idle update leaves the
  rotation where it was, however often it runs; at 8388609, the first number above two to
  the 23, it rounds to 8388608, a step of 1. At -1/134217728 (minus two to the -27) the
  sum \<^verbatim>\<open>userRotationX + 0.5f\<close> rounds to 0.5, which is not below 0.5 in magnitude, so
  an idle update overshoots 0 and leaves the rotation at +0.5; so it does at -1/67108864
  (minus two to the -26), the largest magnitude for which it happens.
\<close>

theorem idle_decay_counterexample:
  "userRotationX (Planet_update libm_rounded 5000 0
      ((main_planet 1 2 (main_moon 3 4))\<lparr>userRotationX := 8388610\<rparr>)) = 8388610
   \<and> userRotationX (Planet_update libm_rounded 5000 0
      ((main_planet 1 2 (main_moon 3 4))\<lparr>userRotationX := 8388609\<rparr>)) = 8388608
   \<and> userRotationX (Planet_update libm_rounded 5000 0
      ((main_planet 1 2 (main_moon 3 4))\<lparr>userRotationX := - (1 / 134217728)\<rparr>)) = 1 / 2
   \<and> userRotationX (Planet_update libm_rounded 5000 0
      ((main_planet 1 2 (main_moon 3 4))\<lparr>userRotationX := - (1 / 67108864)\<rparr>)) = 1 / 2"
proof -
  have a: "f32 (16777219 / 2) = 8388610"
    by (subst f32_eqI [where k = 23]) (simp_all add: rne_def)
  have a': "f32 (16777217 / 2) = 8388608"
    by (subst f32_eqI [where k = 23]) (simp_all add: rne_def)
  have b: "f32 (67108863 / 134217728) = 1 / 2"
    by (subst f32_eqI [where k = "- 2"]) (simp_all add: rne_def)
  have b': "f32 (33554431 / 67108864) = 1 / 2"
    by (subst f32_eqI [where k = "- 2"]) (simp_all add: rne_def)
  show ?thesis
    using idle_5000 by (simp add: Planet_update_userRotationX Let_def a a' b b')
qed

text \<open>
  What the drag handler stores, and what the decay makes of it, is always a multiple of
  0.5 between -40 and 40.
\<close>

lemma drag_step_half_grid:
  assumes "half_grid x"
  shows "half_grid (let y = f32 (x - f32 (f32 (of_int n) * (1/2)))
     in if 40 < y then 40 else if y < - 40 then - 40 else y)"
proof -
  obtain k where k: "x = of_int k / 2" using assms by (auto simp: half_grid_def)
  obtain i where i: "f32 (of_int n) = of_int i" using f32_int_is_int by blast
  obtain j where j: "f32 (of_int i / 2) = of_int j / 2" using f32_half_is_half by blast
  obtain m where m: "f32 (of_int (k - j) / 2) = of_int m / 2" using f32_half_is_half by blast
  have y: "f32 (x - f32 (f32 (of_int n) * (1/2))) = of_int m / 2"
    using m by (simp add: k i j diff_divide_distrib)
  have "half_grid 40" unfolding half_grid_def by (rule exI [of _ 80]) simp
  moreover have "half_grid (- 40)" unfolding half_grid_def by (rule exI [of _ "- 80"]) simp
  moreover have "half_grid (of_int m / 2)" if "\<not> 40 < (of_int m / 2 :: real)" "\<not> (of_int m / 2 :: real) < - 40"
    unfolding half_grid_def using that by (intro exI [of _ m]) (simp; linarith)
  ultimately show ?thesis unfolding Let_def y by simp
qed

lemma handleInput_half_grid:
  assumes "half_grid (sphereRotationX s)" "half_grid (userRotationX (planet s))"
  shows "half_grid (sphereRotationX (handleInput e ticks s))
       \<and> half_grid (userRotationX (planet (handleInput e ticks s)))"
proof (cases e)
  case (SDL_MOUSEMOTION x y)
  have "sphereRotationX (handleInput e ticks s) =
      (if dragging s then
         (let y = f32 (sphereRotationX s - f32 (f32 (of_int (sint (y - lastMouseY s))) * (1/2)))
          in if 40 < y then 40 else if y < - 40 then - 40 else y)
       else sphereRotationX s)"
    by (simp add: SDL_MOUSEMOTION Let_def)
  moreover have "userRotationX (planet (handleInput e ticks s)) =
      (if dragging s then sphereRotationX (handleInput e ticks s) else userRotationX (planet s))"
    by (simp add: SDL_MOUSEMOTION Let_def setRotation_def)
  ultimately show ?thesis
    using assms drag_step_half_grid [OF assms(1), of "sint (y - lastMouseY s)"] by auto
qed (use assms in \<open>auto simp: Let_def setZoom_def\<close>)

lemma half_grid_decays: "half_grid x \<Longrightarrow> decays x"
proof -
  assume "half_grid x"
  then obtain k where k: "\<bar>k\<bar> \<le> 80" "x = of_int k / 2" by (auto simp: half_grid_def)
  have "f32 (of_int k / 2) = of_int k / 2" using k(1) by (intro f32_half_int) simp
  moreover have "real_of_int k \<le> 80" "- 80 \<le> real_of_int k" using k(1) by linarith+
  moreover have "0 \<le> k \<or> k \<le> - 1" by linarith
  then have "0 \<le> real_of_int k \<or> real_of_int k \<le> - 1"
    by (metis of_int_0_le_iff of_int_le_iff of_int_minus of_int_1)
  ultimately show "decays x" unfolding decays_def k(2) by auto
qed

lemma half_grid_decay: "half_grid x \<Longrightarrow> half_grid (decay x)"
proof -
  assume "half_grid x"
  then obtain k where k: "\<bar>k\<bar> \<le> 80" "x = of_int k / 2" by (auto simp: half_grid_def)
  consider "\<bar>x\<bar> < 1" | "1 \<le> x" | "x \<le> - 1" by linarith
  then show "half_grid (decay x)"
  proof cases
    case 1
    then show ?thesis unfolding half_grid_def decay_def by (intro exI [of _ 0]) simp
  next
    case 2
    then show ?thesis
      unfolding half_grid_def decay_def using k by (intro exI [of _ "k - 1"]) (simp add: field_simps)
  next
    case 3
    then show ?thesis
      unfolding half_grid_def decay_def using k by (intro exI [of _ "k + 1"]) (simp add: field_simps)
  qed
qed

lemma Planet_update_half_grid:
  assumes "half_grid (userRotationX p)"
  shows "half_grid (userRotationX (Planet_update L t l p))"
proof (cases "RETURN_TO_ORIGINAL_DELAY \<le> t - l")
  case True
  have "userRotationX (Planet_update L t l p) = decay (userRotationX p)"
    using assms True by (intro idle_update_step half_grid_decays)
  then show ?thesis using assms by (simp add: half_grid_decay)
next
  case False
  then show ?thesis using assms by (simp add: Planet_update_userRotationX)
qed

lemma handleInputs_half_grid:
  "half_grid (sphereRotationX s) \<Longrightarrow> half_grid (userRotationX (planet s))
   \<Longrightarrow> half_grid (sphereRotationX (handleInputs es s))
     \<and> half_grid (userRotationX (planet (handleInputs es s)))"
proof (induction es arbitrary: s)
  case Nil
  then show ?case by simp
next
  case (Cons a es)
  obtain e ticks where a: "a = (e, ticks)" by (cases a)
  show ?case
    using handleInput_half_grid [OF Cons.prems, of e ticks] by (simp add: a Cons.IH)
qed

lemma frame_half_grid:
  assumes "half_grid (sphereRotationX s)" "half_grid (userRotationX (planet s))"
  shows "half_grid (sphereRotationX (frame L events currentTime s))
     \<and> half_grid (userRotationX (planet (frame L events currentTime s)))"
  using handleInputs_half_grid [OF assms, of events]
  by (simp add: frame_def Let_def Planet_update_half_grid)

lemma main_loop_half_grid:
  "half_grid (sphereRotationX s) \<Longrightarrow> half_grid (userRotationX (planet s))
   \<Longrightarrow> half_grid (userRotationX (planet (main_loop L fs s)))"
proof (induction fs arbitrary: s)
  case Nil
  then show ?case by simp
next
  case (Cons f fs)
  obtain events currentTime where f: "f = (events, currentTime)" by (cases f)
  show ?case
    using Cons.prems frame_half_grid [OF Cons.prems, of L events currentTime]
    by (auto simp: f intro: Cons.IH)
qed

lemma half_grid_0: "half_grid 0"
  unfolding half_grid_def by (rule exI [of _ 0]) simp

lemma program_user_rotation_half_grid:
  "half_grid (userRotationX (planet (main_loop L fs
     (main_state (Planet_new r atmosphereR texture atmosphereTexture m orbitR orbitS)))))"
  by (rule main_loop_half_grid) (simp_all add: main_state_def Planet_new_def half_grid_0)

text \<open>
  So in the program itself the decay always completes: from whatever state the loop of
  \<^verbatim>\<open>main\<close> has reached, 80 idle update ticks bring the user rotation about X to
  exactly 0.
\<close>

lemma program_idle_decay:
  assumes "\<forall>(t, l) \<in> set ts. RETURN_TO_ORIGINAL_DELAY \<le> t - l" and "80 \<le> length ts"
  shows "userRotationX (updates L ts (planet (main_loop L fs
     (main_state (Planet_new r atmosphereR texture atmosphereTexture m orbitR orbitS))))) = 0"
proof -
  define p where "p = planet (main_loop L fs
     (main_state (Planet_new r atmosphereR texture atmosphereTexture m orbitR orbitS)))"
  have h: "half_grid (userRotationX p)"
    unfolding p_def by (rule program_user_rotation_half_grid)
  then obtain k where k: "\<bar>k\<bar> \<le> 80" "userRotationX p = of_int k / 2"
    by (auto simp: half_grid_def)
  have "\<bar>real_of_int k\<bar> \<le> 80" using k(1) by linarith
  then have "2 * \<bar>userRotationX p\<bar> \<le> real (length ts)"
    using assms(2) by (simp add: k(2))
  then have "(if length ts = 0 \<or> 1/2 \<le> \<bar>userRotationX p\<bar> - real (length ts) / 2
      then userRotationX p - sgn (userRotationX p) * (real (length ts) / 2) else 0) = 0"
    by (rule closed_form_zero)
  moreover have "decays (userRotationX p)" using h by (rule half_grid_decays)
  ultimately show ?thesis
    using idle_decay_closed_form [OF _ assms(1), of p L] by (simp add: p_def)
qed


section \<open>The position of the planet\<close>


lemma Planet_new_position:
  "orbitAngle (Planet_new r atmosphereR texture atmosphereTexture m orbitR orbitS) = 0
   \<and> positionX (Planet_new r atmosphereR texture atmosphereTexture m orbitR orbitS) = orbitR
   \<and> positionZ (Planet_new r atmosphereR texture atmosphereTexture m orbitR orbitS) = 0"
  by (simp add: Planet_new_def)


subsection \<open>Cosine and sine: Lipschitz bounds, and bounds of pi\<close>









subsection \<open>The error of the conversion to radians and of the product\<close>













end
